theory Spec2Isabelle
  imports Main
begin

section \<open>The query dispatch core of the routing engine (src/engine/engine.cpp)\<close>

text \<open>
  The file under verification defines \<open>Engine::EngineLock\<close> with its two methods
  \<open>IncreaseQueryCount\<close> and \<open>DecreaseQueryCount\<close>, the template function \<open>RunQuery\<close>,
  the constructor of \<open>Engine\<close> and the six query methods of \<open>Engine\<close>.

  The embedding is in two layers.
  \<^item> A sequential layer follows one request through \<open>RunQuery\<close>: state is passed
    explicitly, every operation the thread performs is appended to a trace of events in
    program order, and a failed \<open>BOOST_ASSERT\<close> or a thrown exception is a value.
  \<^item> An interleaving layer runs \<open>IncreaseQueryCount\<close> and \<open>DecreaseQueryCount\<close>
    statement by statement for several threads under a schedule, with the two named mutexes
    owned by at most one party at a time.
\<close>

subsection \<open>Data\<close>

text \<open>The three mutexes of the file: two named mutexes of \<open>SharedBarriers\<close> and the
  process-local \<open>facade_update_mutex\<close> of \<open>EngineLock\<close>.\<close>

datatype mutex = pending_update_mutex | query_mutex | facade_update_mutex

text \<open>The six plugin classes whose \<open>HandleRequest\<close> the engine calls.\<close>

datatype plugin_kind =
  ViaRoutePlugin | TablePlugin | NearestPlugin | TripPlugin | MatchPlugin | TilePlugin

text \<open>Modelled from the spec: \<open>engine/status.hpp\<close> is not among the sources. The spec
  speaks of the \<open>Status\<close> a handler reports and of an error \<open>Status\<close>; \<open>RunQuery\<close> hands
  the value back and nothing in \<open>engine.cpp\<close> inspects it.\<close>

datatype Status = Ok | Error

text \<open>
  A \<open>std::shared_ptr<BaseDataFacade>\<close> is \<open>nat option\<close>: \<open>None\<close> is the null pointer and
  \<open>Some a\<close> points to the facade object at address \<open>a\<close>. The number of \<open>shared_ptr\<close>
  instances owning the object at \<open>a\<close> is \<open>use_count a\<close>; an object whose count drops to
  zero is destroyed.

  What a thread does, in program order. A call of \<open>MaybeLoadNewRegion\<close> is recorded with
  what came of it: \<open>Inl\<close> the message of the exception it threw, \<open>Inr\<close> the pointer it
  returned. A call of \<open>HandleRequest\<close> is recorded with the plugin and the facade it was
  given.
\<close>

datatype event =
    Lock mutex
  | Unlock mutex
  | Increment
  | Decrement
  | Notify_all
  | Call_HasNewRegion bool
  | Call_MaybeLoadNewRegion "string + nat option"
  | Exchange "nat option" nat
  | Destroy nat
  | Call_HandleRequest plugin_kind "nat option"

text \<open>How a call can end without returning: a \<open>BOOST_ASSERT\<close> that fails in a build that
  checks assertions aborts the process, a null \<open>unique_ptr\<close> is dereferenced, the
  constructor throws a \<open>util::exception\<close> with a message, or an exception thrown by a
  function that was called (its message is kept) passes through: the file has no
  \<open>try\<close> block, so such an exception leaves every function of the file on its way.\<close>

datatype error = Assertion_failed | Null_dereference | util_exception string | Propagated string

text \<open>
  Modelled from the spec: \<open>storage/shared_barriers.hpp\<close> is not among the sources. Of
  \<open>SharedBarriers\<close> the file uses the two named mutexes, the condition
  \<open>no_running_queries_condition\<close> and the counter \<open>number_of_queries\<close>, which the spec calls
  \<open>active_query_count\<close>, an integer. The code compares it with \<open>0 <= \<close>, so it is signed;
  its width is not visible and it is an unbounded \<open>int\<close> here.
\<close>

record SharedBarriers =
  number_of_queries :: int

record EngineLock =
  barrier :: SharedBarriers

text \<open>
  \<open>engine/data_watchdog.hpp\<close> is not among the sources. The watchdog object is a value of
  an arbitrary type \<open>'w\<close> and the members the engine calls are parameters:
  \<open>HasNewRegion\<close> answers a boolean, \<open>MaybeLoadNewRegion\<close> either throws (\<open>Inl\<close> the
  message of the exception) or returns (\<open>Inr\<close>) a possibly null \<open>shared_ptr\<close> together with
  the watchdog as the call left it, the static \<open>TryConnect\<close> answers a boolean and
  \<open>DataWatchdog_new\<close> is the freshly constructed watchdog.
\<close>

record 'w DataWatchdog =
  TryConnect :: bool
  DataWatchdog_new :: 'w
  HasNewRegion :: "'w \<Rightarrow> bool"
  MaybeLoadNewRegion :: "'w \<Rightarrow> string + nat option \<times> 'w"

text \<open>A plugin: its class and its \<open>HandleRequest(facade, parameters, result)\<close>, which
  either throws (\<open>Inl\<close> the message of the exception) or returns (\<open>Inr\<close>) a \<open>Status\<close>
  and the result, which is passed by reference, as the call filled it.\<close>

record ('p, 'r) plugin =
  kind :: plugin_kind
  HandleRequest :: "nat option \<Rightarrow> 'p \<Rightarrow> 'r \<Rightarrow> string + Status \<times> 'r"

text \<open>The members of \<open>Engine\<close> that \<open>RunQuery\<close> receives by reference, together with the
  reference counts of the facade objects and the trace of the running thread.\<close>

record 'w state =
  lock :: "EngineLock option"
  watchdog :: "'w option"
  query_data_facade :: "nat option"
  use_count :: "nat \<Rightarrow> nat"
  trace :: "event list"

record ('p, 'r) plugins =
  route_plugin :: "('p, 'r) plugin"
  table_plugin :: "('p, 'r) plugin"
  nearest_plugin :: "('p, 'r) plugin"
  trip_plugin :: "('p, 'r) plugin"
  match_plugin :: "('p, 'r) plugin"
  tile_plugin :: "('p, 'r) plugin"

subsection \<open>Assertions\<close>

text \<open>\<open>BOOST_ASSERT(cond)\<close>: with assertions compiled in (\<open>enabled\<close>) execution goes on only
  if \<open>cond\<close> holds; with \<open>NDEBUG\<close> the macro is empty. The value says whether execution
  goes on.\<close>

definition BOOST_ASSERT :: "bool \<Rightarrow> bool \<Rightarrow> bool" where
  "BOOST_ASSERT enabled cond = (if enabled then cond else True)"

subsection \<open>EngineLock\<close>

definition emit :: "event list \<Rightarrow> 'w state \<Rightarrow> 'w state" where
  "emit es s = s\<lparr>trace := trace s @ es\<rparr>"

text \<open>The events a call added to the trace.\<close>

definition new_events :: "'w state \<Rightarrow> 'w state \<Rightarrow> event list" where
  "new_events s s' = drop (length (trace s)) (trace s')"

text \<open>\<open>IncreaseQueryCount\<close> (lines 66-81): lock \<open>pending_update_mutex\<close>, lock \<open>query_mutex\<close>,
  unlock \<open>pending_update_mutex\<close>, increment; the scoped lock on \<open>query_mutex\<close> is released when
  the function returns.\<close>

definition IncreaseQueryCount :: "EngineLock \<Rightarrow> EngineLock \<times> event list" where
  "IncreaseQueryCount l =
     (l\<lparr>barrier := (barrier l)\<lparr>number_of_queries := number_of_queries (barrier l) + 1\<rparr>\<rparr>,
      [Lock pending_update_mutex, Lock query_mutex, Unlock pending_update_mutex,
       Increment, Unlock query_mutex])"

text \<open>\<open>DecreaseQueryCount\<close> (lines 48-63): lock \<open>query_mutex\<close>, decrement, assert that the
  count is not negative, notify all waiters if the count is zero, release the scoped lock.
  A failed assertion aborts with the mutex still held.\<close>

definition DecreaseQueryCount ::
  "bool \<Rightarrow> EngineLock \<Rightarrow> (error + unit) \<times> EngineLock \<times> event list" where
  "DecreaseQueryCount dbg l =
     (let n = number_of_queries (barrier l) - 1;
          l' = l\<lparr>barrier := (barrier l)\<lparr>number_of_queries := n\<rparr>\<rparr>
      in if \<not> BOOST_ASSERT dbg (0 \<le> n) then (Inl Assertion_failed, l', [Lock query_mutex, Decrement])
         else if 0 = n then (Inr (), l', [Lock query_mutex, Decrement, Notify_all, Unlock query_mutex])
         else (Inr (), l', [Lock query_mutex, Decrement, Unlock query_mutex]))"

subsection \<open>RunQuery\<close>

text \<open>The number of owners of the object a pointer refers to; \<open>use_count()\<close> of a null
  \<open>shared_ptr\<close> is zero.\<close>

definition use_count_of :: "'w state \<Rightarrow> nat option \<Rightarrow> nat" where
  "use_count_of s p = (case p of None \<Rightarrow> 0 | Some a \<Rightarrow> use_count s a)"

text \<open>A \<open>shared_ptr\<close> returned by value is one more owner of its object.\<close>

definition own :: "nat option \<Rightarrow> 'w state \<Rightarrow> 'w state" where
  "own p s = (case p of None \<Rightarrow> s | Some a \<Rightarrow> s\<lparr>use_count := (use_count s)(a := use_count s a + 1)\<rparr>)"

text \<open>\<open>facade = std::move(new_facade)\<close> (line 128): the engine's pointer gives up the
  object it owned and takes over the object of \<open>new_facade\<close>, whose count does not change.
  The old object is destroyed exactly when the engine's pointer was its only owner.\<close>

definition move_assign :: "nat \<Rightarrow> 'w state \<Rightarrow> 'w state" where
  "move_assign a s =
     (case query_data_facade s of
        None \<Rightarrow> emit [Exchange None a] (s\<lparr>query_data_facade := Some a\<rparr>)
      | Some old \<Rightarrow>
          emit ([Exchange (Some old) a] @ (if use_count s old = 1 then [Destroy old] else []))
            (s\<lparr>query_data_facade := Some a,
               use_count := (use_count s)(old := use_count s old - 1)\<rparr>))"

text \<open>Lines 115-130, the body guarded by \<open>facade_update_mutex\<close>: ask the watchdog whether
  there is a new region; only then load it; if a facade came back, assert that the engine's
  pointer is the only owner of the current facade and replace it. An exception of
  \<open>MaybeLoadNewRegion\<close> (line 118) leaves the body at once. The watchdog is reached through
  the reference the caller made, and a reference made from a null pointer refers to no
  object.\<close>

definition check_and_swap :: "bool \<Rightarrow> 'w DataWatchdog \<Rightarrow> 'w state \<Rightarrow> (error + unit) \<times> 'w state" where
  "check_and_swap dbg wd s =
     (case watchdog s of
        None \<Rightarrow> (Inl Null_dereference, s)
      | Some w \<Rightarrow>
          (let has_new = HasNewRegion wd w;
               s1 = emit [Call_HasNewRegion has_new] s
           in if has_new then
                (case MaybeLoadNewRegion wd w of
                   Inl m \<Rightarrow> (Inl (Propagated m), emit [Call_MaybeLoadNewRegion (Inl m)] s1)
                 | Inr (new_facade, w') \<Rightarrow>
                     (let s2 = emit [Call_MaybeLoadNewRegion (Inr new_facade)]
                                 (own new_facade (s1\<lparr>watchdog := Some w'\<rparr>))
                      in case new_facade of
                           None \<Rightarrow> (Inr (), s2)
                         | Some a \<Rightarrow>
                             if \<not> BOOST_ASSERT dbg (use_count_of s2 (query_data_facade s2) = 1)
                             then (Inl Assertion_failed, s2)
                             else (Inr (), move_assign a s2)))
              else (Inr (), s1)))"

text \<open>Lines 106-131: the block that holds \<open>facade_update_mutex\<close> through a
  \<open>std::lock_guard\<close>. The guard gives the mutex back when the body completes and when an
  exception unwinds the block; an abort does not unwind, so then the mutex stays taken.\<close>

definition facade_update_block :: "bool \<Rightarrow> 'w DataWatchdog \<Rightarrow> 'w state \<Rightarrow> (error + unit) \<times> 'w state" where
  "facade_update_block dbg wd s =
     (case check_and_swap dbg wd (emit [Lock facade_update_mutex] s) of
        (Inl (Propagated m), s') \<Rightarrow> (Inl (Propagated m), emit [Unlock facade_update_mutex] s')
      | (Inl e, s') \<Rightarrow> (Inl e, s')
      | (Inr u, s') \<Rightarrow> (Inr u, emit [Unlock facade_update_mutex] s'))"

text \<open>\<open>plugin.HandleRequest(facade, parameters, result)\<close> against the engine's pointer as it
  is at the call.\<close>

definition call_HandleRequest ::
  "('p, 'r) plugin \<Rightarrow> 'p \<Rightarrow> 'r \<Rightarrow> 'w state \<Rightarrow> (string + Status \<times> 'r) \<times> 'w state" where
  "call_HandleRequest plugin parameters result s =
     (HandleRequest plugin (query_data_facade s) parameters result,
      emit [Call_HandleRequest (kind plugin) (query_data_facade s)] s)"

text \<open>\<open>RunQuery\<close> (lines 89-137). Without a lock the handler is called at once and what it
  returns or throws is what \<open>RunQuery\<close> returns or throws. With a lock:
  \<open>IncreaseQueryCount\<close>, the guarded block, the handler, \<open>DecreaseQueryCount\<close>, and the
  handler's status is returned. Nothing between line 104 and line 135 catches an exception
  and no object of the function undoes the increment when it is destroyed: an exception
  that leaves the guarded block (from line 118) or the handler (line 133) leaves
  \<open>RunQuery\<close> without the statements that follow, so without \<open>DecreaseQueryCount\<close>. The
  other calls of the function (\<open>HasNewRegion\<close>, the operations on the mutexes and on the
  count) are taken to return. The assertion of line 103 stands in the branch in which the
  lock is not null, where it holds.\<close>

definition RunQuery ::
  "bool \<Rightarrow> 'w DataWatchdog \<Rightarrow> 'p \<Rightarrow> ('p, 'r) plugin \<Rightarrow> 'r \<Rightarrow> 'w state
     \<Rightarrow> (error + Status \<times> 'r) \<times> 'w state" where
  "RunQuery dbg wd parameters plugin result s =
     (case lock s of
        None \<Rightarrow>
          (case call_HandleRequest plugin parameters result s of
             (Inl m, s') \<Rightarrow> (Inl (Propagated m), s')
           | (Inr r, s') \<Rightarrow> (Inr r, s'))
      | Some l \<Rightarrow>
          (let (l1, es1) = IncreaseQueryCount l;
               s1 = emit es1 (s\<lparr>lock := Some l1\<rparr>)
           in case facade_update_block dbg wd s1 of
                (Inl e, s2) \<Rightarrow> (Inl e, s2)
              | (Inr u, s2) \<Rightarrow>
                  (case call_HandleRequest plugin parameters result s2 of
                     (Inl m, s3) \<Rightarrow> (Inl (Propagated m), s3)
                   | (Inr r, s3) \<Rightarrow>
                       (case DecreaseQueryCount dbg l1 of
                          (Inl e, l4, es4) \<Rightarrow> (Inl e, emit es4 (s3\<lparr>lock := Some l4\<rparr>))
                        | (Inr v, l4, es4) \<Rightarrow> (Inr r, emit es4 (s3\<lparr>lock := Some l4\<rparr>))))))"

subsection \<open>The query methods of Engine\<close>

text \<open>\<open>*watchdog\<close> (lines 189, 194, 199, 204, 209 and 214): the \<open>unique_ptr\<close> is
  dereferenced to make the reference that \<open>RunQuery\<close> receives, whether or not the engine
  has a lock. Dereferencing a null \<open>unique_ptr\<close> has no defined behaviour. A standard
  library that checks its preconditions (\<open>checked\<close>; libstdc++ with its assertions enabled)
  aborts there. Otherwise the reference is made and refers to no object, so that a use of it
  fails (\<open>check_and_swap\<close>), and a call that never uses it is not disturbed.\<close>

definition dereference :: "bool \<Rightarrow> 'a option \<Rightarrow> error + 'a option" where
  "dereference checked p = (if checked \<and> p = None then Inl Null_dereference else Inr p)"

text \<open>Lines 187-215: each method dereferences the watchdog and passes the engine's lock,
  the reference to the watchdog and the engine's facade to \<open>RunQuery\<close> with the plugin of its
  kind. The plugins are made by the constructor and are never null.\<close>

definition Route ::
  "bool \<Rightarrow> bool \<Rightarrow> 'w DataWatchdog \<Rightarrow> ('p, 'r) plugins \<Rightarrow> 'p \<Rightarrow> 'r \<Rightarrow> 'w state
     \<Rightarrow> (error + Status \<times> 'r) \<times> 'w state" where
  "Route checked dbg wd ps params result s =
     (case dereference checked (watchdog s) of
        Inl e \<Rightarrow> (Inl e, s)
      | Inr w \<Rightarrow> RunQuery dbg wd params (route_plugin ps) result s)"

definition Table ::
  "bool \<Rightarrow> bool \<Rightarrow> 'w DataWatchdog \<Rightarrow> ('p, 'r) plugins \<Rightarrow> 'p \<Rightarrow> 'r \<Rightarrow> 'w state
     \<Rightarrow> (error + Status \<times> 'r) \<times> 'w state" where
  "Table checked dbg wd ps params result s =
     (case dereference checked (watchdog s) of
        Inl e \<Rightarrow> (Inl e, s)
      | Inr w \<Rightarrow> RunQuery dbg wd params (table_plugin ps) result s)"

definition Nearest ::
  "bool \<Rightarrow> bool \<Rightarrow> 'w DataWatchdog \<Rightarrow> ('p, 'r) plugins \<Rightarrow> 'p \<Rightarrow> 'r \<Rightarrow> 'w state
     \<Rightarrow> (error + Status \<times> 'r) \<times> 'w state" where
  "Nearest checked dbg wd ps params result s =
     (case dereference checked (watchdog s) of
        Inl e \<Rightarrow> (Inl e, s)
      | Inr w \<Rightarrow> RunQuery dbg wd params (nearest_plugin ps) result s)"

definition Trip ::
  "bool \<Rightarrow> bool \<Rightarrow> 'w DataWatchdog \<Rightarrow> ('p, 'r) plugins \<Rightarrow> 'p \<Rightarrow> 'r \<Rightarrow> 'w state
     \<Rightarrow> (error + Status \<times> 'r) \<times> 'w state" where
  "Trip checked dbg wd ps params result s =
     (case dereference checked (watchdog s) of
        Inl e \<Rightarrow> (Inl e, s)
      | Inr w \<Rightarrow> RunQuery dbg wd params (trip_plugin ps) result s)"

definition Match ::
  "bool \<Rightarrow> bool \<Rightarrow> 'w DataWatchdog \<Rightarrow> ('p, 'r) plugins \<Rightarrow> 'p \<Rightarrow> 'r \<Rightarrow> 'w state
     \<Rightarrow> (error + Status \<times> 'r) \<times> 'w state" where
  "Match checked dbg wd ps params result s =
     (case dereference checked (watchdog s) of
        Inl e \<Rightarrow> (Inl e, s)
      | Inr w \<Rightarrow> RunQuery dbg wd params (match_plugin ps) result s)"

definition Tile ::
  "bool \<Rightarrow> bool \<Rightarrow> 'w DataWatchdog \<Rightarrow> ('p, 'r) plugins \<Rightarrow> 'p \<Rightarrow> 'r \<Rightarrow> 'w state
     \<Rightarrow> (error + Status \<times> 'r) \<times> 'w state" where
  "Tile checked dbg wd ps params result s =
     (case dereference checked (watchdog s) of
        Inl e \<Rightarrow> (Inl e, s)
      | Inr w \<Rightarrow> RunQuery dbg wd params (tile_plugin ps) result s)"

subsection \<open>The constructor of Engine\<close>

text \<open>\<open>engine/engine_config.hpp\<close> is not among the sources. The constructor reads the
  mode, the storage configuration (of an arbitrary type \<open>'c\<close>) and five limits.\<close>

record 'c EngineConfig =
  use_shared_memory :: bool
  storage_config :: 'c
  max_locations_viaroute :: int
  max_locations_distance_table :: int
  max_results_nearest :: int
  max_locations_trip :: int
  max_locations_map_matching :: int

text \<open>What the constructor obtains from code outside the file: \<open>IsValid\<close> of the storage
  configuration, the address of the \<open>InternalDataFacade\<close> that \<open>std::make_shared\<close>
  creates, the freshly made \<open>EngineLock\<close> and the constructors of the six plugins.\<close>

record ('c, 'p, 'r) environment =
  IsValid :: "'c \<Rightarrow> bool"
  InternalDataFacade_new :: "'c \<Rightarrow> nat"
  EngineLock_new :: EngineLock
  ViaRoutePlugin_new :: "int \<Rightarrow> ('p, 'r) plugin"
  TablePlugin_new :: "int \<Rightarrow> ('p, 'r) plugin"
  NearestPlugin_new :: "int \<Rightarrow> ('p, 'r) plugin"
  TripPlugin_new :: "int \<Rightarrow> ('p, 'r) plugin"
  MatchPlugin_new :: "int \<Rightarrow> ('p, 'r) plugin"
  TilePlugin_new :: "('p, 'r) plugin"

text \<open>Lines 171-179: the plugins are registered with the limits of the configuration.\<close>

definition register_plugins :: "('c, 'p, 'r) environment \<Rightarrow> 'c EngineConfig \<Rightarrow> ('p, 'r) plugins" where
  "register_plugins env config =
     \<lparr>route_plugin = ViaRoutePlugin_new env (max_locations_viaroute config),
      table_plugin = TablePlugin_new env (max_locations_distance_table config),
      nearest_plugin = NearestPlugin_new env (max_results_nearest config),
      trip_plugin = TripPlugin_new env (max_locations_trip config),
      match_plugin = MatchPlugin_new env (max_locations_map_matching config),
      tile_plugin = TilePlugin_new env\<rparr>"

text \<open>\<open>Engine::Engine\<close> (lines 146-180), started with the reference counts \<open>counts\<close>. In
  shared mode the lock is made, \<open>TryConnect\<close> is asked and a failure is thrown, the
  watchdog is made, its \<open>MaybeLoadNewRegion\<close> gives the facade (an exception of that call
  leaves the constructor) and the constructor asserts that the facade is not null. Otherwise
  an invalid storage configuration is thrown and an internal facade is made; in this branch
  nothing is assigned to the watchdog, which stays null.\<close>

definition Engine ::
  "bool \<Rightarrow> 'w DataWatchdog \<Rightarrow> ('c, 'p, 'r) environment \<Rightarrow> 'c EngineConfig \<Rightarrow> (nat \<Rightarrow> nat)
     \<Rightarrow> error + ('p, 'r) plugins \<times> 'w state" where
  "Engine dbg wd env config counts =
     (if use_shared_memory config then
        (if \<not> TryConnect wd then
           Inl (util_exception
             ''No shared memory blocks found, have you forgotten to run osrm-datastore?'')
         else
           (case MaybeLoadNewRegion wd (DataWatchdog_new wd) of
              Inl m \<Rightarrow> Inl (Propagated m)
            | Inr (facade, w) \<Rightarrow>
                (let s = emit [Call_MaybeLoadNewRegion (Inr facade)]
                           (own facade
                             \<lparr>lock = Some (EngineLock_new env), watchdog = Some w,
                              query_data_facade = facade, use_count = counts, trace = []\<rparr>)
                 in if \<not> BOOST_ASSERT dbg (facade \<noteq> None) then Inl Assertion_failed
                    else Inr (register_plugins env config, s))))
      else
        (if \<not> IsValid env (storage_config config) then
           Inl (util_exception ''Invalid file paths given!'')
         else
           Inr (register_plugins env config,
                own (Some (InternalDataFacade_new env (storage_config config)))
                  \<lparr>lock = None, watchdog = None,
                   query_data_facade = Some (InternalDataFacade_new env (storage_config config)),
                   use_count = counts, trace = []\<rparr>)))"

text \<open>The spec's \<open>Execute\<close>: the method of the engine for a kind of query, and the plugin
  that serves it.\<close>

definition plugin_for :: "plugin_kind \<Rightarrow> ('p, 'r) plugins \<Rightarrow> ('p, 'r) plugin" where
  "plugin_for k ps =
     (case k of ViaRoutePlugin \<Rightarrow> route_plugin ps | TablePlugin \<Rightarrow> table_plugin ps
      | NearestPlugin \<Rightarrow> nearest_plugin ps | TripPlugin \<Rightarrow> trip_plugin ps
      | MatchPlugin \<Rightarrow> match_plugin ps | TilePlugin \<Rightarrow> tile_plugin ps)"

definition Execute ::
  "plugin_kind \<Rightarrow> bool \<Rightarrow> bool \<Rightarrow> 'w DataWatchdog \<Rightarrow> ('p, 'r) plugins \<Rightarrow> 'p \<Rightarrow> 'r \<Rightarrow> 'w state
     \<Rightarrow> (error + Status \<times> 'r) \<times> 'w state" where
  "Execute k =
     (case k of ViaRoutePlugin \<Rightarrow> Route | TablePlugin \<Rightarrow> Table | NearestPlugin \<Rightarrow> Nearest
      | TripPlugin \<Rightarrow> Trip | MatchPlugin \<Rightarrow> Match | TilePlugin \<Rightarrow> Tile)"

subsection \<open>Predicates used in the statements\<close>

text \<open>The events of lines 115-130: the two calls to the watchdog, the exchange of the
  facade and the destruction of the old one.\<close>

fun swap_event :: "event \<Rightarrow> bool" where
  "swap_event (Call_HasNewRegion b) = True"
| "swap_event (Call_MaybeLoadNewRegion p) = True"
| "swap_event (Exchange p a) = True"
| "swap_event (Destroy a) = True"
| "swap_event e = False"

text \<open>What the caller sees of \<open>MaybeLoadNewRegion\<close>: the exception, or the pointer that is
  returned.\<close>

definition load_result :: "'w DataWatchdog \<Rightarrow> 'w \<Rightarrow> string + nat option" where
  "load_result wd w = (case MaybeLoadNewRegion wd w of Inl m \<Rightarrow> Inl m | Inr (p, w') \<Rightarrow> Inr p)"

text \<open>The state in which line 127 evaluates its assertion: the watchdog answered that there
  is a new region and its load returned the facade at \<open>a\<close>.\<close>

definition loaded :: "nat \<Rightarrow> 'w \<Rightarrow> 'w state \<Rightarrow> 'w state" where
  "loaded a w' s =
     emit [Call_HasNewRegion True, Call_MaybeLoadNewRegion (Inr (Some a))]
       (own (Some a) (s\<lparr>watchdog := Some w'\<rparr>))"

text \<open>No exception of \<open>MaybeLoadNewRegion\<close> stops a request that starts in \<open>s\<close>: the
  watchdog reports no new region, so that the function is not called, or the call returns.\<close>

definition load_returns :: "'w DataWatchdog \<Rightarrow> 'w state \<Rightarrow> bool" where
  "load_returns wd s =
     (case watchdog s of
        None \<Rightarrow> True
      | Some w \<Rightarrow> if HasNewRegion wd w then \<not> isl (load_result wd w) else True)"

text \<open>The assertion of line 127 does not stop a request that starts in \<open>s\<close>: either no
  facade is loaded, or assertions are compiled out, or the engine's pointer is the only
  owner of the current facade.\<close>

definition swap_assertion_passes :: "bool \<Rightarrow> 'w DataWatchdog \<Rightarrow> 'w state \<Rightarrow> bool" where
  "swap_assertion_passes dbg wd s =
     (case watchdog s of
        None \<Rightarrow> True
      | Some w \<Rightarrow>
          if HasNewRegion wd w then
            (case load_result wd w of
               Inr (Some a) \<Rightarrow>
                 BOOST_ASSERT dbg (use_count_of (own (Some a) s) (query_data_facade s) = 1)
             | _ \<Rightarrow> True)
          else True)"

text \<open>The assertion of line 56 does not stop a request that starts in \<open>s\<close>: the count it
  finds is not negative, or assertions are compiled out.\<close>

definition count_assertion_passes :: "bool \<Rightarrow> 'w state \<Rightarrow> bool" where
  "count_assertion_passes dbg s =
     (case lock s of
        None \<Rightarrow> True
      | Some l \<Rightarrow> BOOST_ASSERT dbg (0 \<le> number_of_queries (barrier l)))"

text \<open>The facade that is current when the guarded block has been left: the one the
  watchdog loaded if there was a new region and the load returned a facade, the previous one
  otherwise.\<close>

definition current_after :: "'w DataWatchdog \<Rightarrow> 'w state \<Rightarrow> nat option" where
  "current_after wd s =
     (case watchdog s of
        None \<Rightarrow> query_data_facade s
      | Some w \<Rightarrow>
          if HasNewRegion wd w then
            (case load_result wd w of
               Inr (Some a) \<Rightarrow> Some a
             | _ \<Rightarrow> query_data_facade s)
          else query_data_facade s)"

text \<open>There is no newer generation for the watchdog of \<open>s\<close>: \<open>HasNewRegion\<close> answers false,
  or \<open>MaybeLoadNewRegion\<close> returns no facade.\<close>

definition no_newer_generation :: "'w DataWatchdog \<Rightarrow> 'w state \<Rightarrow> bool" where
  "no_newer_generation wd s =
     (case watchdog s of
        None \<Rightarrow> False
      | Some w \<Rightarrow> \<not> HasNewRegion wd w \<or> load_result wd w = Inr None)"

text \<open>The guarded block run \<open>n\<close> times in a row, and the condition that no run of these
  finds a newer generation.\<close>

fun repeat_block :: "nat \<Rightarrow> bool \<Rightarrow> 'w DataWatchdog \<Rightarrow> 'w state \<Rightarrow> 'w state" where
  "repeat_block 0 dbg wd s = s"
| "repeat_block (Suc n) dbg wd s = repeat_block n dbg wd (snd (facade_update_block dbg wd s))"

fun no_newer_during :: "nat \<Rightarrow> bool \<Rightarrow> 'w DataWatchdog \<Rightarrow> 'w state \<Rightarrow> bool" where
  "no_newer_during 0 dbg wd s = True"
| "no_newer_during (Suc n) dbg wd s =
     (no_newer_generation wd s \<and> no_newer_during n dbg wd (snd (facade_update_block dbg wd s)))"

text \<open>What a caller gets from a call of \<open>HandleRequest\<close> that nothing follows: the status
  and the result, or the exception passing through.\<close>

definition handler_outcome :: "string + Status \<times> 'r \<Rightarrow> error + Status \<times> 'r" where
  "handler_outcome x = (case x of Inl m \<Rightarrow> Inl (Propagated m) | Inr r \<Rightarrow> Inr r)"

section \<open>Interleaved execution of IncreaseQueryCount and DecreaseQueryCount\<close>

text \<open>
  Several query threads, possibly of several processes, call the two methods of
  \<open>EngineLock\<close> on the same \<open>SharedBarriers\<close>. Each thread executes its call statement by
  statement; a schedule says whose turn it is. A named mutex has at most one owner, and a
  thread whose next statement is the acquisition of a mutex that is taken does not move.
  The increment and the decrement of the plain integer \<open>number_of_queries\<close> are a read
  followed by a write. The updater is the process that, outside this file, takes
  \<open>pending_update_mutex\<close> while it publishes a new region; here it only acquires and
  releases that mutex.
\<close>

datatype owner = Query nat | Updater

text \<open>Where a thread stands: the statement it executes next, by the lines of the source.\<close>

datatype pc =
    Idle
  | Inc_lock_pending
  | Inc_lock_query
  | Inc_unlock_pending
  | Inc_load
  | Inc_store int
  | Inc_return
  | Dec_lock_query
  | Dec_load
  | Dec_store int
  | Dec_assert
  | Dec_notify
  | Dec_return
  | Aborted

text \<open>The shared barriers, the owner of each mutex and the position of every thread. The
  remaining fields are history variables, which no statement reads: the number of
  \<open>notify_all\<close> calls, of calls of \<open>IncreaseQueryCount\<close> begun, of increments written, of
  calls of \<open>IncreaseQueryCount\<close> returned, and the same for \<open>DecreaseQueryCount\<close>.\<close>

record system =
  shared :: SharedBarriers
  held :: "mutex \<Rightarrow> owner option"
  pcs :: "nat \<Rightarrow> pc"
  notifications :: nat
  admits_begun :: nat
  increments :: nat
  admits_done :: nat
  releases_begun :: nat
  decrements :: nat
  releases_done :: nat

definition initial :: system where
  "initial = \<lparr>shared = \<lparr>number_of_queries = 0\<rparr>, held = (\<lambda>m. None), pcs = (\<lambda>t. Idle),
     notifications = 0, admits_begun = 0, increments = 0, admits_done = 0,
     releases_begun = 0, decrements = 0, releases_done = 0\<rparr>"

definition goto :: "nat \<Rightarrow> pc \<Rightarrow> system \<Rightarrow> system" where
  "goto t p s = s\<lparr>pcs := (pcs s)(t := p)\<rparr>"

definition acquire :: "mutex \<Rightarrow> owner \<Rightarrow> system \<Rightarrow> system" where
  "acquire m who s = s\<lparr>held := (held s)(m := Some who)\<rparr>"

definition release :: "mutex \<Rightarrow> system \<Rightarrow> system" where
  "release m s = s\<lparr>held := (held s)(m := None)\<rparr>"

definition store :: "int \<Rightarrow> system \<Rightarrow> system" where
  "store v s = s\<lparr>shared := (shared s)\<lparr>number_of_queries := v\<rparr>\<rparr>"

text \<open>One statement of thread \<open>t\<close>. \<open>Inc_lock_pending\<close> is line 69, \<open>Inc_lock_query\<close> line
  73, \<open>Inc_unlock_pending\<close> line 77, \<open>Inc_load\<close> and \<open>Inc_store\<close> line 80, \<open>Inc_return\<close>
  the release of the scoped lock at line 81; \<open>Dec_lock_query\<close> is line 51, \<open>Dec_load\<close> and
  \<open>Dec_store\<close> line 55, \<open>Dec_assert\<close> line 56, \<open>Dec_notify\<close> lines 59-62 and \<open>Dec_return\<close>
  the release at line 63.\<close>

definition step :: "bool \<Rightarrow> nat \<Rightarrow> system \<Rightarrow> system" where
  "step dbg t s =
     (case pcs s t of
        Idle \<Rightarrow> s
      | Inc_lock_pending \<Rightarrow>
          if held s pending_update_mutex = None
          then goto t Inc_lock_query (acquire pending_update_mutex (Query t) s) else s
      | Inc_lock_query \<Rightarrow>
          if held s query_mutex = None
          then goto t Inc_unlock_pending (acquire query_mutex (Query t) s) else s
      | Inc_unlock_pending \<Rightarrow> goto t Inc_load (release pending_update_mutex s)
      | Inc_load \<Rightarrow> goto t (Inc_store (number_of_queries (shared s) + 1)) s
      | Inc_store v \<Rightarrow> goto t Inc_return (store v s\<lparr>increments := increments s + 1\<rparr>)
      | Inc_return \<Rightarrow> goto t Idle (release query_mutex s\<lparr>admits_done := admits_done s + 1\<rparr>)
      | Dec_lock_query \<Rightarrow>
          if held s query_mutex = None
          then goto t Dec_load (acquire query_mutex (Query t) s) else s
      | Dec_load \<Rightarrow> goto t (Dec_store (number_of_queries (shared s) - 1)) s
      | Dec_store v \<Rightarrow> goto t Dec_assert (store v s\<lparr>decrements := decrements s + 1\<rparr>)
      | Dec_assert \<Rightarrow>
          if BOOST_ASSERT dbg (0 \<le> number_of_queries (shared s))
          then goto t Dec_notify s else goto t Aborted s
      | Dec_notify \<Rightarrow>
          if 0 = number_of_queries (shared s)
          then goto t Dec_return (s\<lparr>notifications := notifications s + 1\<rparr>)
          else goto t Dec_return s
      | Dec_return \<Rightarrow> goto t Idle (release query_mutex s\<lparr>releases_done := releases_done s + 1\<rparr>)
      | Aborted \<Rightarrow> s)"

text \<open>What a schedule is made of: an idle thread calls one of the two methods, a thread
  executes its next statement, the updater takes or gives back \<open>pending_update_mutex\<close>. An
  action that is not possible in the state leaves it unchanged.\<close>

datatype action = Call_Increase nat | Call_Decrease nat | Step nat | Updater_lock | Updater_unlock

definition exec :: "bool \<Rightarrow> action \<Rightarrow> system \<Rightarrow> system" where
  "exec dbg a s =
     (case a of
        Call_Increase t \<Rightarrow>
          if pcs s t = Idle then goto t Inc_lock_pending (s\<lparr>admits_begun := admits_begun s + 1\<rparr>)
          else s
      | Call_Decrease t \<Rightarrow>
          if pcs s t = Idle then goto t Dec_lock_query (s\<lparr>releases_begun := releases_begun s + 1\<rparr>)
          else s
      | Step t \<Rightarrow> step dbg t s
      | Updater_lock \<Rightarrow>
          if held s pending_update_mutex = None then acquire pending_update_mutex Updater s else s
      | Updater_unlock \<Rightarrow>
          if held s pending_update_mutex = Some Updater then release pending_update_mutex s else s)"

fun run :: "bool \<Rightarrow> action list \<Rightarrow> system \<Rightarrow> system" where
  "run dbg [] s = s"
| "run dbg (a # as) s = run dbg as (exec dbg a s)"

text \<open>Every \<open>Release\<close> is matched by a preceding \<open>Admit\<close>: whenever a call of
  \<open>DecreaseQueryCount\<close> begins, fewer such calls have begun before than calls of
  \<open>IncreaseQueryCount\<close> have returned.\<close>

definition release_matched :: "action \<Rightarrow> system \<Rightarrow> bool" where
  "release_matched a s =
     (case a of
        Call_Decrease t \<Rightarrow> if pcs s t = Idle then releases_begun s < admits_done s else True
      | _ \<Rightarrow> True)"

fun matched :: "bool \<Rightarrow> action list \<Rightarrow> system \<Rightarrow> bool" where
  "matched dbg [] s = True"
| "matched dbg (a # as) s = (release_matched a s \<and> matched dbg as (exec dbg a s))"

text \<open>Positions by what the thread holds or has done.\<close>

fun holds_query :: "pc \<Rightarrow> bool" where
  "holds_query Idle = False"
| "holds_query Inc_lock_pending = False"
| "holds_query Inc_lock_query = False"
| "holds_query Dec_lock_query = False"
| "holds_query p = True"

fun holds_pending :: "pc \<Rightarrow> bool" where
  "holds_pending Inc_lock_query = True"
| "holds_pending Inc_unlock_pending = True"
| "holds_pending p = False"

fun before_increment :: "pc \<Rightarrow> bool" where
  "before_increment Inc_lock_pending = True"
| "before_increment Inc_lock_query = True"
| "before_increment Inc_unlock_pending = True"
| "before_increment Inc_load = True"
| "before_increment (Inc_store v) = True"
| "before_increment p = False"

fun returning :: "pc \<Rightarrow> bool" where
  "returning Inc_return = True"
| "returning p = False"

fun before_decrement :: "pc \<Rightarrow> bool" where
  "before_decrement Dec_lock_query = True"
| "before_decrement Dec_load = True"
| "before_decrement (Dec_store v) = True"
| "before_decrement p = False"

fun after_decrement :: "pc \<Rightarrow> bool" where
  "after_decrement Dec_assert = True"
| "after_decrement Dec_notify = True"
| "after_decrement Dec_return = True"
| "after_decrement p = False"

text \<open>A thread inside \<open>IncreaseQueryCount\<close> that has acquired \<open>pending_update_mutex\<close>
  (it is past line 69), and a thread inside \<open>DecreaseQueryCount\<close>.\<close>

fun past_gate :: "pc \<Rightarrow> bool" where
  "past_gate Inc_lock_query = True"
| "past_gate Inc_unlock_pending = True"
| "past_gate Inc_load = True"
| "past_gate (Inc_store v) = True"
| "past_gate Inc_return = True"
| "past_gate p = False"

fun in_release :: "pc \<Rightarrow> bool" where
  "in_release Dec_lock_query = True"
| "in_release Dec_load = True"
| "in_release (Dec_store v) = True"
| "in_release Dec_assert = True"
| "in_release Dec_notify = True"
| "in_release Dec_return = True"
| "in_release p = False"

text \<open>The invariants of the interleaving: a thread at a position that holds a mutex is
  its owner; a value about to be written was computed from the current count; and the
  history variables account for the count.\<close>

definition mutual_exclusion :: "system \<Rightarrow> bool" where
  "mutual_exclusion s =
     ((\<forall>t. holds_query (pcs s t) \<longrightarrow> held s query_mutex = Some (Query t))
    \<and> (\<forall>t. holds_pending (pcs s t) \<longrightarrow> held s pending_update_mutex = Some (Query t)))"

definition registers :: "system \<Rightarrow> bool" where
  "registers s =
     ((\<forall>t v. pcs s t = Inc_store v \<longrightarrow> v = number_of_queries (shared s) + 1)
    \<and> (\<forall>t v. pcs s t = Dec_store v \<longrightarrow> v = number_of_queries (shared s) - 1))"

definition threads_at :: "(pc \<Rightarrow> bool) \<Rightarrow> system \<Rightarrow> int" where
  "threads_at P s = int (card {t. P (pcs s t)})"

definition finitely_busy :: "system \<Rightarrow> bool" where
  "finitely_busy s = finite {t. pcs s t \<noteq> Idle}"

definition none_aborted :: "system \<Rightarrow> bool" where
  "none_aborted s = (\<forall>t. pcs s t \<noteq> Aborted)"

definition accounting :: "system \<Rightarrow> bool" where
  "accounting s =
     (finitely_busy s
    \<and> none_aborted s
    \<and> number_of_queries (shared s) = int (increments s) - int (decrements s)
    \<and> int (admits_begun s) = int (increments s) + threads_at before_increment s
    \<and> int (increments s) = int (admits_done s) + threads_at returning s
    \<and> int (releases_begun s) = int (decrements s) + threads_at before_decrement s
    \<and> int (decrements s) = int (releases_done s) + threads_at after_decrement s
    \<and> releases_begun s \<le> admits_done s)"

definition invariant :: "system \<Rightarrow> bool" where
  "invariant s = (mutual_exclusion s \<and> registers s \<and> accounting s)"

section \<open>Concrete data for the instances\<close>

text \<open>A watchdog whose state is the number of the region it has loaded. Region 1 is
  published and its facade is at address 7: a watchdog that has loaded nothing yet reports a
  new region and loads it, a watchdog that has loaded region 1 reports none.\<close>

definition example_watchdog :: "nat DataWatchdog" where
  "example_watchdog =
     \<lparr>TryConnect = True, DataWatchdog_new = 0,
      HasNewRegion = (\<lambda>w. w < 1),
      MaybeLoadNewRegion = (\<lambda>w. if w < 1 then Inr (Some 7, 1) else Inr (None, w))\<rparr>"


definition throwing_watchdog :: "nat DataWatchdog" where
  "throwing_watchdog =
     \<lparr>TryConnect = True, DataWatchdog_new = 0,
      HasNewRegion = (\<lambda>w. True),
      MaybeLoadNewRegion = (\<lambda>w. Inl ''region unreadable'')\<rparr>"

text \<open>A plugin that answers \<open>Ok\<close> and records the parameter when it is given a facade, a
  plugin that always reports an error, and a plugin whose handler throws.\<close>

definition example_plugin :: "(nat, nat list) plugin" where
  "example_plugin =
     \<lparr>kind = ViaRoutePlugin,
      HandleRequest = (\<lambda>f p r. if f = None then Inr (Error, r) else Inr (Ok, p # r))\<rparr>"

definition failing_plugin :: "(nat, nat list) plugin" where
  "failing_plugin = \<lparr>kind = TablePlugin, HandleRequest = (\<lambda>f p r. Inr (Error, r))\<rparr>"

definition throwing_plugin :: "(nat, nat list) plugin" where
  "throwing_plugin = \<lparr>kind = MatchPlugin, HandleRequest = (\<lambda>f p r. Inl ''std::bad_alloc'')\<rparr>"

definition example_plugins :: "(nat, nat list) plugins" where
  "example_plugins =
     \<lparr>route_plugin = example_plugin, table_plugin = failing_plugin,
      nearest_plugin = example_plugin\<lparr>kind := NearestPlugin\<rparr>,
      trip_plugin = example_plugin\<lparr>kind := TripPlugin\<rparr>,
      match_plugin = throwing_plugin,
      tile_plugin = example_plugin\<lparr>kind := TilePlugin\<rparr>\<rparr>"

text \<open>An engine in shared mode that serves the facade at address 3, owned by the engine
  alone, with a watchdog that has not loaded region 1 yet; the same engine while a second
  pointer owns the facade at address 3; the engine once it serves region 1; and an engine
  in standalone mode, which has neither a lock nor a watchdog.\<close>

definition shared_engine :: "nat state" where
  "shared_engine =
     \<lparr>lock = Some \<lparr>barrier = \<lparr>number_of_queries = 0\<rparr>\<rparr>, watchdog = Some 0,
      query_data_facade = Some 3, use_count = (\<lambda>a. if a = 3 then 1 else 0), trace = []\<rparr>"

definition contended_engine :: "nat state" where
  "contended_engine =
     \<lparr>lock = Some \<lparr>barrier = \<lparr>number_of_queries = 1\<rparr>\<rparr>, watchdog = Some 0,
      query_data_facade = Some 3, use_count = (\<lambda>a. if a = 3 then 2 else 0), trace = []\<rparr>"

definition settled_engine :: "nat state" where
  "settled_engine =
     \<lparr>lock = Some \<lparr>barrier = \<lparr>number_of_queries = 2\<rparr>\<rparr>, watchdog = Some 1,
      query_data_facade = Some 7, use_count = (\<lambda>a. if a = 7 then 1 else 0), trace = []\<rparr>"

definition standalone_engine :: "nat state" where
  "standalone_engine =
     \<lparr>lock = None, watchdog = None,
      query_data_facade = Some 3, use_count = (\<lambda>a. if a = 3 then 1 else 0), trace = []\<rparr>"

text \<open>An environment whose storage configuration is a boolean that says whether it is
  valid, a configuration that selects shared mode and a configuration that selects
  standalone mode with a valid storage configuration.\<close>

definition example_environment :: "(bool, nat, nat list) environment" where
  "example_environment =
     \<lparr>IsValid = (\<lambda>c. c), InternalDataFacade_new = (\<lambda>c. 3),
      EngineLock_new = \<lparr>barrier = \<lparr>number_of_queries = 0\<rparr>\<rparr>,
      ViaRoutePlugin_new = (\<lambda>n. example_plugin),
      TablePlugin_new = (\<lambda>n. failing_plugin),
      NearestPlugin_new = (\<lambda>n. example_plugin\<lparr>kind := NearestPlugin\<rparr>),
      TripPlugin_new = (\<lambda>n. example_plugin\<lparr>kind := TripPlugin\<rparr>),
      MatchPlugin_new = (\<lambda>n. throwing_plugin),
      TilePlugin_new = example_plugin\<lparr>kind := TilePlugin\<rparr>\<rparr>"


definition standalone_config :: "bool EngineConfig" where
  "standalone_config =
     \<lparr>use_shared_memory = False, storage_config = True, max_locations_viaroute = 500,
      max_locations_distance_table = 100, max_results_nearest = 100, max_locations_trip = 100,
      max_locations_map_matching = 100\<rparr>"

text \<open>Two query threads that are admitted one after the other, thread 1 waiting first for
  \<open>pending_update_mutex\<close> and then for \<open>query_mutex\<close>, and that release in the opposite
  order.\<close>

definition two_queries :: "action list" where
  "two_queries =
     [Call_Increase 0, Call_Increase 1, Step 0, Step 1, Step 0, Step 0, Step 1, Step 0, Step 0,
      Step 1, Step 0, Step 1, Step 1, Step 1, Step 1, Step 1,
      Call_Decrease 1, Call_Decrease 0, Step 1, Step 0, Step 1, Step 1, Step 1, Step 1, Step 1,
      Step 0, Step 0, Step 0, Step 0, Step 0, Step 0]"

text \<open>A query thread takes \<open>pending_update_mutex\<close>, takes \<open>query_mutex\<close> and gives
  \<open>pending_update_mutex\<close> back; then the updater takes \<open>pending_update_mutex\<close>.\<close>

definition overtaken :: "action list" where
  "overtaken = [Call_Increase 0, Step 0, Step 0, Step 0, Updater_lock]"

section \<open>One request through RunQuery\<close>

subsection \<open>Auxiliary facts\<close>

lemma emit_fields:
  "watchdog (emit es s) = watchdog s" "lock (emit es s) = lock s"
  "query_data_facade (emit es s) = query_data_facade s" "use_count (emit es s) = use_count s"
  "trace (emit es s) = trace s @ es"
  by (simp_all add: emit_def)

lemma use_count_of_frame:
  "use_count_of (own p (emit es (s\<lparr>lock := x\<rparr>))) q = use_count_of (own p s) q"
  by (simp add: use_count_of_def own_def emit_def split: option.splits)

lemma load_result_throws: "MaybeLoadNewRegion wd w = Inl m \<Longrightarrow> load_result wd w = Inl m"
  by (simp add: load_result_def)

lemma load_result_returns: "MaybeLoadNewRegion wd w = Inr (p, w') \<Longrightarrow> load_result wd w = Inr p"
  by (simp add: load_result_def)

lemma check_and_swap_loaded:
  "watchdog s = Some w \<Longrightarrow> HasNewRegion wd w \<Longrightarrow> MaybeLoadNewRegion wd w = Inr (Some a, w') \<Longrightarrow>
   check_and_swap dbg wd s =
     (if BOOST_ASSERT dbg (use_count_of (loaded a w' s) (query_data_facade s) = 1)
      then (Inr (), move_assign a (loaded a w' s))
      else (Inl Assertion_failed, loaded a w' s))"
  by (simp add: check_and_swap_def own_def emit_def loaded_def use_count_of_def)

text \<open>When neither an exception of the load nor the assertion of line 127 stops it, the
  guarded block completes: it adds the acquisition of the mutex, events of the check and the
  swap, and the release of the mutex, and leaves the lock of the engine alone.\<close>

lemma facade_update_block_returns:
  assumes "watchdog s = Some w" and "load_returns wd s" and "swap_assertion_passes dbg wd s"
  shows "\<exists>s' part. facade_update_block dbg wd s = (Inr (), s')
          \<and> trace s' = trace s @ [Lock facade_update_mutex] @ part @ [Unlock facade_update_mutex]
          \<and> list_all swap_event part
          \<and> part \<noteq> [] \<and> hd part = Call_HasNewRegion (HasNewRegion wd w)
          \<and> lock s' = lock s
          \<and> query_data_facade s' = current_after wd s"
proof (cases "HasNewRegion wd w")
  case False
  with assms show ?thesis
    by (simp add: facade_update_block_def check_and_swap_def emit_def current_after_def)
next
  case True
  with assms(1,2) obtain nf w' where ld: "MaybeLoadNewRegion wd w = Inr (nf, w')"
    by (cases "MaybeLoadNewRegion wd w") (auto simp: load_returns_def load_result_def)
  show ?thesis
  proof (cases nf)
    case None
    with assms True ld show ?thesis
      by (simp add: facade_update_block_def check_and_swap_def emit_def current_after_def own_def
          load_result_def)
  next
    case (Some a)
    with assms True ld show ?thesis
      by (cases "query_data_facade s")
         (simp_all add: facade_update_block_def check_and_swap_def emit_def current_after_def
           own_def swap_assertion_passes_def use_count_of_def move_assign_def load_result_def)
  qed
qed

text \<open>When the load throws, the guarded block is left by the exception: the lock guard gives
  \<open>facade_update_mutex\<close> back, and nothing else of the engine has changed.\<close>

lemma facade_update_block_throws:
  assumes "watchdog s = Some w" and "HasNewRegion wd w" and "MaybeLoadNewRegion wd w = Inl m"
  shows "facade_update_block dbg wd s =
           (Inl (Propagated m),
            emit [Lock facade_update_mutex, Call_HasNewRegion True,
                  Call_MaybeLoadNewRegion (Inl m), Unlock facade_update_mutex] s)"
  using assms by (simp add: facade_update_block_def check_and_swap_def emit_def)

text \<open>With a watchdog the dereference of lines 189-214 succeeds, and each method of the
  engine is \<open>RunQuery\<close> with its plugin.\<close>

lemma Execute_with_watchdog:
  assumes "watchdog s = Some w"
  shows "Execute k checked dbg wd ps params result s =
           RunQuery dbg wd params (plugin_for k ps) result s"
  using assms
  by (cases k)
     (simp_all add: Execute_def plugin_for_def Route_def Table_def Nearest_def Trip_def
       Match_def Tile_def dereference_def)

text \<open>A request in shared mode that neither an exception of the load nor the assertion of
  line 127 stops reaches the call of the handler at line 133, against the facade that is
  current after the guarded block. What follows depends on the handler: if it throws, the
  exception leaves \<open>RunQuery\<close> from there; if it returns, \<open>DecreaseQueryCount\<close> is called.\<close>

lemma RunQuery_shared_unfold:
  assumes "lock s = Some l" and "watchdog s = Some w"
    and "load_returns wd s" and "swap_assertion_passes dbg wd s"
  shows "\<exists>s3 part.
           trace s3 = trace s @
             [Lock pending_update_mutex, Lock query_mutex, Unlock pending_update_mutex,
              Increment, Unlock query_mutex]
             @ [Lock facade_update_mutex] @ part @ [Unlock facade_update_mutex]
             @ [Call_HandleRequest (kind plugin) (current_after wd s)]
         \<and> list_all swap_event part
         \<and> part \<noteq> [] \<and> hd part = Call_HasNewRegion (HasNewRegion wd w)
         \<and> query_data_facade s3 = current_after wd s
         \<and> lock s3 = Some (fst (IncreaseQueryCount l))
         \<and> RunQuery dbg wd params plugin result s =
             (case HandleRequest plugin (current_after wd s) params result of
                Inl m \<Rightarrow> (Inl (Propagated m), s3)
              | Inr r \<Rightarrow>
                  (case DecreaseQueryCount dbg (fst (IncreaseQueryCount l)) of
                     (Inl e, l4, es4) \<Rightarrow> (Inl e, emit es4 (s3\<lparr>lock := Some l4\<rparr>))
                   | (Inr v, l4, es4) \<Rightarrow> (Inr r, emit es4 (s3\<lparr>lock := Some l4\<rparr>))))"
proof -
  define l1 where "l1 = fst (IncreaseQueryCount l)"
  define s1 where "s1 = emit (snd (IncreaseQueryCount l)) (s\<lparr>lock := Some l1\<rparr>)"
  have w1: "watchdog s1 = Some w" using assms(2) by (simp add: s1_def emit_fields)
  have lr1: "load_returns wd s1"
    using assms(2,3) by (simp add: s1_def load_returns_def emit_fields)
  have sw1: "swap_assertion_passes dbg wd s1"
    using assms(2,4)
    by (simp add: s1_def swap_assertion_passes_def use_count_of_frame emit_fields
        cong: option.case_cong if_cong sum.case_cong)
  from facade_update_block_returns [OF w1 lr1 sw1]
  obtain s2 part where s2: "facade_update_block dbg wd s1 = (Inr (), s2)"
    and tr2: "trace s2 = trace s1 @ [Lock facade_update_mutex] @ part @ [Unlock facade_update_mutex]"
    and part: "list_all swap_event part"
    and hd: "part \<noteq> []" "hd part = Call_HasNewRegion (HasNewRegion wd w)"
    and l2: "lock s2 = lock s1"
    and f2: "query_data_facade s2 = current_after wd s1"
    by blast
  have ca: "current_after wd s1 = current_after wd s"
    by (simp add: s1_def emit_fields current_after_def
        cong: option.case_cong if_cong sum.case_cong)
  define s3 where "s3 = emit [Call_HandleRequest (kind plugin) (current_after wd s)] s2"
  have tr3: "trace s3 = trace s @
             [Lock pending_update_mutex, Lock query_mutex, Unlock pending_update_mutex,
              Increment, Unlock query_mutex]
             @ [Lock facade_update_mutex] @ part @ [Unlock facade_update_mutex]
             @ [Call_HandleRequest (kind plugin) (current_after wd s)]"
    using tr2 by (simp add: s3_def s1_def emit_fields IncreaseQueryCount_def)
  have f3: "query_data_facade s3 = current_after wd s"
    using f2 ca by (simp add: s3_def emit_fields)
  have l3: "lock s3 = Some (fst (IncreaseQueryCount l))"
    using l2 by (simp add: s3_def s1_def l1_def emit_fields)
  have run: "RunQuery dbg wd params plugin result s =
             (case HandleRequest plugin (current_after wd s) params result of
                Inl m \<Rightarrow> (Inl (Propagated m), s3)
              | Inr r \<Rightarrow>
                  (case DecreaseQueryCount dbg (fst (IncreaseQueryCount l)) of
                     (Inl e, l4, es4) \<Rightarrow> (Inl e, emit es4 (s3\<lparr>lock := Some l4\<rparr>))
                   | (Inr v, l4, es4) \<Rightarrow> (Inr r, emit es4 (s3\<lparr>lock := Some l4\<rparr>))))"
    using assms(1) s2 f2 ca
    by (simp add: RunQuery_def call_HandleRequest_def s1_def l1_def s3_def split_beta
        split: sum.split)
  from tr3 part hd f3 l3 run show ?thesis by blast
qed

text \<open>The whole of a request in shared mode that nothing stops and whose handler returns.\<close>

lemma RunQuery_shared_returns:
  assumes "lock s = Some l" and "watchdog s = Some w"
    and "load_returns wd s" and "swap_assertion_passes dbg wd s"
    and "count_assertion_passes dbg s"
    and "HandleRequest plugin (current_after wd s) params result = Inr r"
  shows "\<exists>s' part.
           RunQuery dbg wd params plugin result s = (Inr r, s')
         \<and> trace s' = trace s @
             [Lock pending_update_mutex, Lock query_mutex, Unlock pending_update_mutex,
              Increment, Unlock query_mutex]
             @ [Lock facade_update_mutex] @ part @ [Unlock facade_update_mutex]
             @ [Call_HandleRequest (kind plugin) (current_after wd s)]
             @ [Lock query_mutex, Decrement]
             @ (if number_of_queries (barrier l) = 0 then [Notify_all] else [])
             @ [Unlock query_mutex]
         \<and> list_all swap_event part
         \<and> part \<noteq> [] \<and> hd part = Call_HasNewRegion (HasNewRegion wd w)
         \<and> query_data_facade s' = current_after wd s
         \<and> lock s' = Some l"
proof -
  from RunQuery_shared_unfold [OF assms(1-4), of plugin params result]
  obtain s3 part where tr3: "trace s3 = trace s @
             [Lock pending_update_mutex, Lock query_mutex, Unlock pending_update_mutex,
              Increment, Unlock query_mutex]
             @ [Lock facade_update_mutex] @ part @ [Unlock facade_update_mutex]
             @ [Call_HandleRequest (kind plugin) (current_after wd s)]"
    and part: "list_all swap_event part"
    and hd: "part \<noteq> []" "hd part = Call_HasNewRegion (HasNewRegion wd w)"
    and f3: "query_data_facade s3 = current_after wd s"
    and run: "RunQuery dbg wd params plugin result s =
             (case HandleRequest plugin (current_after wd s) params result of
                Inl m \<Rightarrow> (Inl (Propagated m), s3)
              | Inr r \<Rightarrow>
                  (case DecreaseQueryCount dbg (fst (IncreaseQueryCount l)) of
                     (Inl e, l4, es4) \<Rightarrow> (Inl e, emit es4 (s3\<lparr>lock := Some l4\<rparr>))
                   | (Inr v, l4, es4) \<Rightarrow> (Inr r, emit es4 (s3\<lparr>lock := Some l4\<rparr>))))"
    by blast
  have cnt: "BOOST_ASSERT dbg (0 \<le> number_of_queries (barrier l))"
    using assms(1,5) by (simp add: count_assertion_passes_def)
  have same: "l\<lparr>barrier := (barrier l)\<lparr>number_of_queries := number_of_queries (barrier l)\<rparr>\<rparr> = l"
    by simp
  have dec: "DecreaseQueryCount dbg (fst (IncreaseQueryCount l)) =
               (Inr (), l,
                [Lock query_mutex, Decrement]
                @ (if number_of_queries (barrier l) = 0 then [Notify_all] else [])
                @ [Unlock query_mutex])"
    using cnt same by (simp add: DecreaseQueryCount_def IncreaseQueryCount_def Let_def)
  define s' where "s' = emit ([Lock query_mutex, Decrement]
                @ (if number_of_queries (barrier l) = 0 then [Notify_all] else [])
                @ [Unlock query_mutex]) (s3\<lparr>lock := Some l\<rparr>)"
  have r: "RunQuery dbg wd params plugin result s = (Inr r, s')"
    using run assms(6) dec by (simp add: s'_def)
  have tr: "trace s' = trace s @
             [Lock pending_update_mutex, Lock query_mutex, Unlock pending_update_mutex,
              Increment, Unlock query_mutex]
             @ [Lock facade_update_mutex] @ part @ [Unlock facade_update_mutex]
             @ [Call_HandleRequest (kind plugin) (current_after wd s)]
             @ [Lock query_mutex, Decrement]
             @ (if number_of_queries (barrier l) = 0 then [Notify_all] else [])
             @ [Unlock query_mutex]"
    using tr3 by (simp add: s'_def emit_def)
  have f: "query_data_facade s' = current_after wd s" and lk: "lock s' = Some l"
    using f3 by (simp_all add: s'_def emit_def)
  from r tr part hd f lk show ?thesis by blast
qed

text \<open>In a build that checks assertions, a request in shared mode that meets a violated
  assertion does not return: the process is aborted. (The assertion of line 56 is reached
  when the load and the handler return.)\<close>

lemma RunQuery_aborts:
  assumes "lock s = Some l" and "watchdog s = Some w"
    and "load_returns wd s"
    and "HandleRequest plugin (current_after wd s) params result = Inr r"
    and "\<not> (swap_assertion_passes dbg wd s \<and> count_assertion_passes dbg s)"
  shows "fst (RunQuery dbg wd params plugin result s) = Inl Assertion_failed"
proof (cases "swap_assertion_passes dbg wd s")
  case True
  from RunQuery_shared_unfold [OF assms(1-3) True, of plugin params result]
  obtain s3 where run: "RunQuery dbg wd params plugin result s =
             (case HandleRequest plugin (current_after wd s) params result of
                Inl m \<Rightarrow> (Inl (Propagated m), s3)
              | Inr r \<Rightarrow>
                  (case DecreaseQueryCount dbg (fst (IncreaseQueryCount l)) of
                     (Inl e, l4, es4) \<Rightarrow> (Inl e, emit es4 (s3\<lparr>lock := Some l4\<rparr>))
                   | (Inr v, l4, es4) \<Rightarrow> (Inr r, emit es4 (s3\<lparr>lock := Some l4\<rparr>))))"
    by blast
  from True assms(1,5) have "\<not> BOOST_ASSERT dbg (0 \<le> number_of_queries (barrier l))"
    by (simp add: count_assertion_passes_def)
  with run assms(4) show ?thesis
    by (simp add: DecreaseQueryCount_def IncreaseQueryCount_def Let_def)
next
  case False
  with assms(2) obtain a w' where hn: "HasNewRegion wd w"
    and ld: "MaybeLoadNewRegion wd w = Inr (Some a, w')"
    and na: "\<not> BOOST_ASSERT dbg (use_count_of (own (Some a) s) (query_data_facade s) = 1)"
    by (cases "MaybeLoadNewRegion wd w")
       (auto simp: swap_assertion_passes_def load_result_def
          split: if_splits option.splits sum.splits)
  define s1 where
    "s1 = emit [Lock facade_update_mutex]
            (emit (snd (IncreaseQueryCount l)) (s\<lparr>lock := Some (fst (IncreaseQueryCount l))\<rparr>))"
  have w1: "watchdog s1 = Some w" using assms(2) by (simp add: s1_def emit_fields)
  have q1: "query_data_facade s1 = query_data_facade s" by (simp add: s1_def emit_fields)
  have u1: "use_count_of (loaded a w' s1) (query_data_facade s)
              = use_count_of (own (Some a) s) (query_data_facade s)"
    by (simp add: s1_def loaded_def use_count_of_def own_def emit_def split: option.splits)
  from check_and_swap_loaded [OF w1 hn ld, of dbg] na q1 u1
  have "check_and_swap dbg wd s1 = (Inl Assertion_failed, loaded a w' s1)" by simp
  with assms(1) show ?thesis
    by (simp add: RunQuery_def facade_update_block_def s1_def IncreaseQueryCount_def)
qed

text \<open>A request in shared mode whose load throws: the exception leaves \<open>RunQuery\<close> after the
  lock guard gave \<open>facade_update_mutex\<close> back. The handler is not called,
  \<open>DecreaseQueryCount\<close> is not called and the count stays incremented.\<close>

lemma RunQuery_load_throws:
  assumes "lock s = Some l" and "watchdog s = Some w"
    and "HasNewRegion wd w" and "MaybeLoadNewRegion wd w = Inl m"
  shows "RunQuery dbg wd params plugin result s =
           (Inl (Propagated m),
            emit [Lock pending_update_mutex, Lock query_mutex, Unlock pending_update_mutex,
                  Increment, Unlock query_mutex, Lock facade_update_mutex,
                  Call_HasNewRegion True, Call_MaybeLoadNewRegion (Inl m),
                  Unlock facade_update_mutex]
              (s\<lparr>lock := Some (fst (IncreaseQueryCount l))\<rparr>))"
proof -
  define s1 where
    "s1 = emit (snd (IncreaseQueryCount l)) (s\<lparr>lock := Some (fst (IncreaseQueryCount l))\<rparr>)"
  have w1: "watchdog s1 = Some w" using assms(2) by (simp add: s1_def emit_fields)
  from facade_update_block_throws [OF w1 assms(3,4), of dbg] assms(1) show ?thesis
    by (simp add: RunQuery_def s1_def split_beta emit_def IncreaseQueryCount_def)
qed

subsection \<open>The order of the gate protocol\<close>

text \<open>
  Claim C1 as stated says that every request in shared mode goes through the whole
  protocol, from \<open>IncreaseQueryCount\<close> to \<open>DecreaseQueryCount\<close>. A request whose load
  throws stops after the guarded block: its handler is not called and
  \<open>DecreaseQueryCount\<close> is not called. A request whose handler throws stops at the call of
  the handler, and \<open>DecreaseQueryCount\<close> is not called either. In both requests the count
  is left one higher than it was found.
\<close>

theorem exception_cuts_protocol_short:
  "Execute ViaRoutePlugin True True throwing_watchdog example_plugins 5 [] shared_engine =
     (Inl (Propagated ''region unreadable''),
      shared_engine
        \<lparr>lock := Some \<lparr>barrier = \<lparr>number_of_queries = 1\<rparr>\<rparr>,
         trace := [Lock pending_update_mutex, Lock query_mutex, Unlock pending_update_mutex,
                   Increment, Unlock query_mutex, Lock facade_update_mutex,
                   Call_HasNewRegion True, Call_MaybeLoadNewRegion (Inl ''region unreadable''),
                   Unlock facade_update_mutex]\<rparr>)
   \<and> Execute MatchPlugin True True example_watchdog example_plugins 5 [] settled_engine =
     (Inl (Propagated ''std::bad_alloc''),
      settled_engine
        \<lparr>lock := Some \<lparr>barrier = \<lparr>number_of_queries = 3\<rparr>\<rparr>,
         trace := [Lock pending_update_mutex, Lock query_mutex, Unlock pending_update_mutex,
                   Increment, Unlock query_mutex, Lock facade_update_mutex,
                   Call_HasNewRegion False, Unlock facade_update_mutex,
                   Call_HandleRequest MatchPlugin (Some 7)]\<rparr>)"
  by (simp add: Execute_def Route_def Match_def dereference_def RunQuery_def
      IncreaseQueryCount_def facade_update_block_def check_and_swap_def call_HandleRequest_def
      emit_def throwing_watchdog_def example_watchdog_def example_plugins_def example_plugin_def
      throwing_plugin_def shared_engine_def settled_engine_def)

text \<open>
  Claim C1, amended. In shared mode every request whose load (when the watchdog reports a
  new region) and whose handler return, and that no failed \<open>BOOST_ASSERT\<close> aborts,
  performs, in this order: \<open>IncreaseQueryCount\<close> (Admit), the acquisition of
  \<open>facade_update_mutex\<close>, the check for a new region with the swap it may cause, the release
  of \<open>facade_update_mutex\<close>, the call of the handler against the facade that is current at
  that point, and \<open>DecreaseQueryCount\<close> (Release); it returns what the handler returned. The
  events between the acquisition and the release of \<open>facade_update_mutex\<close> begin with the
  call of \<open>HasNewRegion\<close> and are events of the check and the swap only. The handler of a
  request that triggers the swap is called with the new facade. This holds for each of the
  six methods of the engine.

  With assertions compiled out no request is aborted by one, and \<open>RunQuery_aborts\<close> says
  that in a build with assertions the requests that violate one abort the process. The
  statement says nothing of the requests that an exception leaves.
\<close>

theorem gate_protocol_order:
  assumes "lock s = Some l" and "watchdog s = Some w"
    and "load_returns wd s"
    and "swap_assertion_passes dbg wd s" and "count_assertion_passes dbg s"
    and "HandleRequest (plugin_for k ps) (current_after wd s) params result = Inr r"
  shows "\<exists>s' part.
           Execute k checked dbg wd ps params result s = (Inr r, s')
         \<and> new_events s s' =
             [Lock pending_update_mutex, Lock query_mutex, Unlock pending_update_mutex,
              Increment, Unlock query_mutex]
             @ [Lock facade_update_mutex] @ part @ [Unlock facade_update_mutex]
             @ [Call_HandleRequest (kind (plugin_for k ps)) (query_data_facade s')]
             @ [Lock query_mutex, Decrement]
             @ (if number_of_queries (barrier l) = 0 then [Notify_all] else [])
             @ [Unlock query_mutex]
         \<and> list_all swap_event part
         \<and> part \<noteq> [] \<and> hd part = Call_HasNewRegion (HasNewRegion wd w)
         \<and> query_data_facade s' = current_after wd s
         \<and> (\<forall>a. HasNewRegion wd w \<and> load_result wd w = Inr (Some a)
                \<longrightarrow> query_data_facade s' = Some a)"
proof -
  have new: "\<forall>a. HasNewRegion wd w \<and> load_result wd w = Inr (Some a)
                \<longrightarrow> current_after wd s = Some a"
    using assms(2) by (simp add: current_after_def)
  from RunQuery_shared_returns [OF assms]
  obtain s' part where
    "RunQuery dbg wd params (plugin_for k ps) result s = (Inr r, s')"
    and "trace s' = trace s @
             [Lock pending_update_mutex, Lock query_mutex, Unlock pending_update_mutex,
              Increment, Unlock query_mutex]
             @ [Lock facade_update_mutex] @ part @ [Unlock facade_update_mutex]
             @ [Call_HandleRequest (kind (plugin_for k ps)) (current_after wd s)]
             @ [Lock query_mutex, Decrement]
             @ (if number_of_queries (barrier l) = 0 then [Notify_all] else [])
             @ [Unlock query_mutex]"
    and "list_all swap_event part"
    and "part \<noteq> []" "hd part = Call_HasNewRegion (HasNewRegion wd w)"
    and "query_data_facade s' = current_after wd s"
    by blast
  with new Execute_with_watchdog [OF assms(2), of k checked dbg wd ps params result]
  show ?thesis by (auto simp: new_events_def)
qed

text \<open>The instance: the request finds region 1 published, swaps the facade at address 3 for
  the one at address 7 and its handler runs against address 7.\<close>

theorem gate_protocol_order_witness:
  "\<exists>s' part.
     Execute ViaRoutePlugin True True example_watchdog example_plugins 5 [] shared_engine
       = (Inr (Ok, [5]), s')
   \<and> new_events shared_engine s' =
       [Lock pending_update_mutex, Lock query_mutex, Unlock pending_update_mutex,
        Increment, Unlock query_mutex, Lock facade_update_mutex] @ part @
       [Unlock facade_update_mutex, Call_HandleRequest ViaRoutePlugin (Some 7),
        Lock query_mutex, Decrement, Notify_all, Unlock query_mutex]
   \<and> list_all swap_event part
   \<and> hd part = Call_HasNewRegion True
   \<and> query_data_facade s' = Some 7"
proof -
  have 1: "lock shared_engine = Some \<lparr>barrier = \<lparr>number_of_queries = 0\<rparr>\<rparr>"
    and 2: "watchdog shared_engine = Some 0"
    and 3: "load_returns example_watchdog shared_engine"
    and 4: "swap_assertion_passes True example_watchdog shared_engine"
    and 5: "count_assertion_passes True shared_engine"
    by (simp_all add: shared_engine_def example_watchdog_def swap_assertion_passes_def
        count_assertion_passes_def load_returns_def load_result_def BOOST_ASSERT_def
        use_count_of_def own_def)
  have 6: "current_after example_watchdog shared_engine = Some 7"
    by (simp add: current_after_def shared_engine_def example_watchdog_def load_result_def)
  have 7: "HandleRequest (plugin_for ViaRoutePlugin example_plugins)
             (current_after example_watchdog shared_engine) 5 [] = Inr (Ok, [5])"
    by (simp add: 6 plugin_for_def example_plugins_def example_plugin_def)
  have 8: "HasNewRegion example_watchdog 0" by (simp add: example_watchdog_def)
  have 9: "kind (plugin_for ViaRoutePlugin example_plugins) = ViaRoutePlugin"
    by (simp add: plugin_for_def example_plugins_def example_plugin_def)
  from gate_protocol_order [OF 1 2 3 4 5 7, of True] 6 8 9
  show ?thesis by auto
qed

subsection \<open>Standalone mode\<close>

text \<open>Without a lock, and when the dereference of the watchdog at lines 189-214 is not
  stopped (there is a watchdog, or the library does not check), the method of the engine
  calls the handler of its plugin at once, against the facade of the engine. The call of the
  handler is the only event of the request, so there is no \<open>IncreaseQueryCount\<close>, no
  \<open>DecreaseQueryCount\<close> and no check or swap, and the state of the engine is unchanged.\<close>

lemma standalone_direct_call:
  assumes "lock s = None" and "\<not> checked \<or> watchdog s \<noteq> None"
  shows "Execute k checked dbg wd ps params result s =
           (handler_outcome (HandleRequest (plugin_for k ps) (query_data_facade s) params result),
            emit [Call_HandleRequest (kind (plugin_for k ps)) (query_data_facade s)] s)"
  using assms
  by (cases k)
     (auto simp add: Execute_def plugin_for_def Route_def Table_def Nearest_def Trip_def
       Match_def Tile_def dereference_def RunQuery_def call_HandleRequest_def
       handler_outcome_def split: sum.splits)

text \<open>
  Claim C3. In standalone mode every request should call the handler directly against the
  single facade of the process. The engine that the constructor makes in standalone mode has
  no lock and a null watchdog, and each of the six methods dereferences the watchdog before
  \<open>RunQuery\<close> looks at the lock. With a standard library that checks the dereference, every
  request of every kind to such an engine stops there: the handler is not called, the trace
  of the request is empty and the engine is as it was. (\<open>standalone_direct_call\<close> above is
  what the claim describes, in a build where the dereference goes unnoticed.)
\<close>

theorem standalone_dereferences_null_watchdog:
  assumes "Engine dbg wd env config counts = Inr (ps, s)" and "\<not> use_shared_memory config"
  shows "lock s = None \<and> watchdog s = None
       \<and> Execute k True dbg wd ps params result s = (Inl Null_dereference, s)
       \<and> new_events s (snd (Execute k True dbg wd ps params result s)) = []"
proof -
  from assms have s: "lock s = None" "watchdog s = None"
    by (auto simp: Engine_def own_def split: if_splits)
  have "Execute k True dbg wd ps params result s = (Inl Null_dereference, s)"
    using s(2)
    by (cases k)
       (simp_all add: Execute_def Route_def Table_def Nearest_def Trip_def Match_def Tile_def
         dereference_def)
  with s show ?thesis by (simp add: new_events_def)
qed

text \<open>The instance: the engine made for a valid standalone configuration, and a tile request
  to it.\<close>

theorem standalone_dereferences_null_watchdog_witness:
  "Engine True example_watchdog example_environment standalone_config (\<lambda>a. 0)
     = Inr (example_plugins, standalone_engine)
   \<and> Execute TilePlugin True True example_watchdog example_plugins 5 [] standalone_engine
     = (Inl Null_dereference, standalone_engine)"
proof -
  have e: "Engine True example_watchdog example_environment standalone_config (\<lambda>a. 0)
             = Inr (example_plugins, standalone_engine)"
    by (simp add: Engine_def standalone_config_def example_environment_def register_plugins_def
        example_plugins_def standalone_engine_def own_def fun_eq_iff)
  have n: "\<not> use_shared_memory standalone_config" by (simp add: standalone_config_def)
  from standalone_dereferences_null_watchdog [OF e n, of TilePlugin 5 "[]"] e
  show ?thesis by simp
qed

subsection \<open>Release once for every Admit\<close>

text \<open>In shared mode every request that returns has called \<open>IncreaseQueryCount\<close> exactly
  once and \<open>DecreaseQueryCount\<close> exactly once, whatever status the handler reported, an
  error included; the status and the result that \<open>RunQuery\<close> returns are those of the
  handler, and the count is back at the value the request found.\<close>

lemma release_once_when_handler_returns:
  assumes "lock s = Some l" and "watchdog s = Some w"
    and "load_returns wd s"
    and "swap_assertion_passes dbg wd s" and "count_assertion_passes dbg s"
    and "HandleRequest plugin (current_after wd s) params result = Inr r"
  shows "\<exists>s'. RunQuery dbg wd params plugin result s = (Inr r, s')
         \<and> count_list (new_events s s') Increment = 1
         \<and> count_list (new_events s s') Decrement = 1
         \<and> lock s' = Some l"
proof -
  from RunQuery_shared_returns [OF assms]
  obtain s' part where r: "RunQuery dbg wd params plugin result s = (Inr r, s')"
    and tr: "trace s' = trace s @
             [Lock pending_update_mutex, Lock query_mutex, Unlock pending_update_mutex,
              Increment, Unlock query_mutex]
             @ [Lock facade_update_mutex] @ part @ [Unlock facade_update_mutex]
             @ [Call_HandleRequest (kind plugin) (current_after wd s)]
             @ [Lock query_mutex, Decrement]
             @ (if number_of_queries (barrier l) = 0 then [Notify_all] else [])
             @ [Unlock query_mutex]"
    and part: "list_all swap_event part" and lk: "lock s' = Some l"
    by blast
  have ni: "count_list part Increment = 0" and nd: "count_list part Decrement = 0"
    using part by (auto simp: count_list_0_iff list_all_iff)
  show ?thesis using r tr ni nd lk by (auto simp: new_events_def)
qed

lemma release_once_on_error_status:
  "\<exists>s'. RunQuery True example_watchdog 5 failing_plugin [] settled_engine = (Inr (Error, []), s')
     \<and> count_list (new_events settled_engine s') Increment = 1
     \<and> count_list (new_events settled_engine s') Decrement = 1
     \<and> lock s' = Some \<lparr>barrier = \<lparr>number_of_queries = 2\<rparr>\<rparr>"
proof -
  have 1: "lock settled_engine = Some \<lparr>barrier = \<lparr>number_of_queries = 2\<rparr>\<rparr>"
    and 2: "watchdog settled_engine = Some 1"
    and 3: "load_returns example_watchdog settled_engine"
    and 4: "swap_assertion_passes True example_watchdog settled_engine"
    and 5: "count_assertion_passes True settled_engine"
    by (simp_all add: settled_engine_def example_watchdog_def swap_assertion_passes_def
        count_assertion_passes_def load_returns_def BOOST_ASSERT_def)
  have 6: "HandleRequest failing_plugin (current_after example_watchdog settled_engine) 5 []
             = Inr (Error, [])"
    by (simp add: failing_plugin_def)
  from release_once_when_handler_returns [OF 1 2 3 4 5 6] show ?thesis .
qed

text \<open>
  Claim C4. \<open>DecreaseQueryCount\<close> should be called exactly once for every
  \<open>IncreaseQueryCount\<close> on every path that leaves a request, a failure of the handler
  included. It is not when the handler fails by throwing: the request has called
  \<open>IncreaseQueryCount\<close> once, the call of the handler at line 133 is its last event, the
  exception leaves \<open>RunQuery\<close> past line 135, \<open>DecreaseQueryCount\<close> is never called and
  the count stays one above the value the request found. (When the handler returns, with
  an error status or another, \<open>release_once_when_handler_returns\<close> applies.)
\<close>

theorem throwing_handler_skips_release:
  assumes "lock s = Some l" and "watchdog s = Some w"
    and "load_returns wd s" and "swap_assertion_passes dbg wd s"
    and "HandleRequest plugin (current_after wd s) params result = Inl m"
  shows "\<exists>s'. RunQuery dbg wd params plugin result s = (Inl (Propagated m), s')
         \<and> count_list (new_events s s') Increment = 1
         \<and> count_list (new_events s s') Decrement = 0
         \<and> last (new_events s s') = Call_HandleRequest (kind plugin) (current_after wd s)
         \<and> lock s' = Some (l\<lparr>barrier := (barrier l)
                             \<lparr>number_of_queries := number_of_queries (barrier l) + 1\<rparr>\<rparr>)"
proof -
  from RunQuery_shared_unfold [OF assms(1-4), of plugin params result]
  obtain s3 part where tr3: "trace s3 = trace s @
             [Lock pending_update_mutex, Lock query_mutex, Unlock pending_update_mutex,
              Increment, Unlock query_mutex]
             @ [Lock facade_update_mutex] @ part @ [Unlock facade_update_mutex]
             @ [Call_HandleRequest (kind plugin) (current_after wd s)]"
    and part: "list_all swap_event part"
    and l3: "lock s3 = Some (fst (IncreaseQueryCount l))"
    and run: "RunQuery dbg wd params plugin result s =
             (case HandleRequest plugin (current_after wd s) params result of
                Inl m \<Rightarrow> (Inl (Propagated m), s3)
              | Inr r \<Rightarrow>
                  (case DecreaseQueryCount dbg (fst (IncreaseQueryCount l)) of
                     (Inl e, l4, es4) \<Rightarrow> (Inl e, emit es4 (s3\<lparr>lock := Some l4\<rparr>))
                   | (Inr v, l4, es4) \<Rightarrow> (Inr r, emit es4 (s3\<lparr>lock := Some l4\<rparr>))))"
    by blast
  have ni: "count_list part Increment = 0" and nd: "count_list part Decrement = 0"
    using part by (auto simp: count_list_0_iff list_all_iff)
  have r: "RunQuery dbg wd params plugin result s = (Inl (Propagated m), s3)"
    using run assms(5) by simp
  show ?thesis using r tr3 ni nd l3 by (auto simp: new_events_def IncreaseQueryCount_def)
qed

text \<open>The instance: two queries are running; a third one arrives and its handler throws.
  The count is left at three.\<close>

theorem throwing_handler_skips_release_witness:
  "\<exists>s'. RunQuery True example_watchdog 5 throwing_plugin [] settled_engine
           = (Inl (Propagated ''std::bad_alloc''), s')
     \<and> count_list (new_events settled_engine s') Increment = 1
     \<and> count_list (new_events settled_engine s') Decrement = 0
     \<and> last (new_events settled_engine s') = Call_HandleRequest MatchPlugin (Some 7)
     \<and> lock s' = Some \<lparr>barrier = \<lparr>number_of_queries = 3\<rparr>\<rparr>"
proof -
  have 1: "lock settled_engine = Some \<lparr>barrier = \<lparr>number_of_queries = 2\<rparr>\<rparr>"
    and 2: "watchdog settled_engine = Some 1"
    and 3: "load_returns example_watchdog settled_engine"
    and 4: "swap_assertion_passes True example_watchdog settled_engine"
    by (simp_all add: settled_engine_def example_watchdog_def swap_assertion_passes_def
        load_returns_def BOOST_ASSERT_def)
  have 5: "HandleRequest throwing_plugin (current_after example_watchdog settled_engine) 5 []
             = Inl ''std::bad_alloc''"
    by (simp add: throwing_plugin_def)
  have 6: "current_after example_watchdog settled_engine = Some 7"
    by (simp add: current_after_def settled_engine_def example_watchdog_def)
  have 7: "kind throwing_plugin = MatchPlugin" by (simp add: throwing_plugin_def)
  from throwing_handler_skips_release [OF 1 2 3 4 5] 6 7
  show ?thesis by simp
qed

subsection \<open>No newer generation\<close>

text \<open>Without a newer generation the guarded block completes and changes neither the
  pointer of the engine, nor the owners of any facade, nor the lock.\<close>

lemma facade_update_block_noop:
  assumes "no_newer_generation wd s"
  shows "fst (facade_update_block dbg wd s) = Inr ()
       \<and> query_data_facade (snd (facade_update_block dbg wd s)) = query_data_facade s
       \<and> use_count (snd (facade_update_block dbg wd s)) = use_count s
       \<and> lock (snd (facade_update_block dbg wd s)) = lock s"
proof -
  from assms obtain w where w: "watchdog s = Some w"
    and n: "\<not> HasNewRegion wd w \<or> load_result wd w = Inr None"
    by (auto simp: no_newer_generation_def split: option.splits)
  show ?thesis
  proof (cases "HasNewRegion wd w")
    case False
    with w show ?thesis
      by (simp add: facade_update_block_def check_and_swap_def emit_def)
  next
    case True
    with n obtain w' where "MaybeLoadNewRegion wd w = Inr (None, w')"
      by (cases "MaybeLoadNewRegion wd w") (auto simp: load_result_def)
    with w True show ?thesis
      by (simp add: facade_update_block_def check_and_swap_def emit_def own_def)
  qed
qed

text \<open>
  Claim C5. The swap block of \<open>RunQuery\<close> is idempotent when there is no newer generation:
  if \<open>HasNewRegion\<close> answers false, or \<open>MaybeLoadNewRegion\<close> returns no facade, the pointer
  of the engine after the block is the pointer before it, and it still is after any number
  of repetitions, as long as none of them finds a newer generation. The reference counts
  do not change either. One call is the case \<open>n = 1\<close>.
\<close>

theorem swap_idempotent:
  assumes "no_newer_during n dbg wd s"
  shows "query_data_facade (repeat_block n dbg wd s) = query_data_facade s
       \<and> use_count (repeat_block n dbg wd s) = use_count s"
  using assms
proof (induction n arbitrary: s)
  case 0
  then show ?case by simp
next
  case (Suc n)
  from Suc.prems have a: "no_newer_generation wd s"
    and b: "no_newer_during n dbg wd (snd (facade_update_block dbg wd s))" by simp_all
  from Suc.IH [OF b] facade_update_block_noop [OF a, of dbg] show ?case by simp
qed

text \<open>The instance: three runs of the block on an engine that already serves region 1.\<close>

theorem swap_idempotent_witness:
  "no_newer_during 3 True example_watchdog settled_engine
   \<and> query_data_facade (repeat_block 3 True example_watchdog settled_engine) = Some 7"
proof -
  have n: "no_newer_during 3 True example_watchdog settled_engine"
    by (simp add: numeral_3_eq_3 no_newer_generation_def settled_engine_def example_watchdog_def
        facade_update_block_def check_and_swap_def emit_def)
  from swap_idempotent [OF n] n show ?thesis by (simp add: settled_engine_def)
qed

subsection \<open>Notification at zero\<close>

text \<open>
  Claim C6. \<open>DecreaseQueryCount\<close> lowers the count by one and calls \<open>notify_all\<close> on
  \<open>no_running_queries_condition\<close> exactly when the lowered count is zero: the call is in
  the trace if and only if the new count is zero, and then once, after the decrement and
  before \<open>query_mutex\<close> is released; a decrement to another value notifies nobody.
\<close>

theorem notify_exactly_at_zero:
  "(case DecreaseQueryCount dbg l of
      (r, l', es) \<Rightarrow>
        number_of_queries (barrier l') = number_of_queries (barrier l) - 1
        \<and> (Notify_all \<in> set es) = (number_of_queries (barrier l') = 0)
        \<and> count_list es Notify_all = (if number_of_queries (barrier l') = 0 then 1 else 0)
        \<and> es = [Lock query_mutex, Decrement]
               @ (if number_of_queries (barrier l') = 0 then [Notify_all] else [])
               @ (if r = Inr () then [Unlock query_mutex] else []))"
  by (simp add: DecreaseQueryCount_def Let_def BOOST_ASSERT_def)

subsection \<open>The cheap check comes first\<close>

text \<open>
  Claim C7. Inside the guarded block the first call is \<open>HasNewRegion\<close>;
  \<open>MaybeLoadNewRegion\<close> is called only if it answered true, and then once, right after it,
  whether the load then returns or throws. When the check answers false, nothing happens
  between the check and the release of \<open>facade_update_mutex\<close>, and the watchdog is as it was.
\<close>

theorem cheap_check_first:
  assumes "watchdog s = Some w"
  shows "\<exists>rest. new_events s (snd (facade_update_block dbg wd s)) =
             [Lock facade_update_mutex, Call_HasNewRegion (HasNewRegion wd w)] @ rest
         \<and> (if HasNewRegion wd w
             then \<exists>tl. rest = Call_MaybeLoadNewRegion (load_result wd w) # tl
                   \<and> (\<forall>p. Call_MaybeLoadNewRegion p \<notin> set tl)
             else rest = [Unlock facade_update_mutex]
                \<and> watchdog (snd (facade_update_block dbg wd s)) = watchdog s)"
proof (cases "HasNewRegion wd w")
  case False
  with assms show ?thesis
    by (simp add: facade_update_block_def check_and_swap_def emit_def new_events_def)
next
  case True
  show ?thesis
  proof (cases "MaybeLoadNewRegion wd w")
    case (Inl m)
    with assms True show ?thesis
      by (simp add: facade_update_block_throws load_result_def emit_def new_events_def)
  next
    case (Inr x)
    then obtain nf w' where ld: "MaybeLoadNewRegion wd w = Inr (nf, w')" by (cases x) simp
    show ?thesis
    proof (cases nf)
      case None
      with assms True ld show ?thesis
        by (simp add: facade_update_block_def check_and_swap_def emit_def new_events_def own_def
            load_result_def)
    next
      case (Some a)
      with assms True ld show ?thesis
        by (cases "query_data_facade s";
            cases "BOOST_ASSERT dbg (use_count_of (loaded a w' (emit [Lock facade_update_mutex] s))
                     (query_data_facade s) = 1)")
           (simp_all add: facade_update_block_def check_and_swap_loaded emit_fields loaded_def
             emit_def new_events_def own_def move_assign_def load_result_def)
    qed
  qed
qed

text \<open>The instances: with nothing new the block is the check alone; with region 1 new the
  load follows the check.\<close>

theorem cheap_check_first_witness:
  "new_events settled_engine (snd (facade_update_block True example_watchdog settled_engine)) =
     [Lock facade_update_mutex, Call_HasNewRegion False, Unlock facade_update_mutex]
   \<and> (\<exists>tl. new_events shared_engine (snd (facade_update_block True example_watchdog shared_engine)) =
         [Lock facade_update_mutex, Call_HasNewRegion True, Call_MaybeLoadNewRegion (Inr (Some 7))] @ tl
       \<and> (\<forall>p. Call_MaybeLoadNewRegion p \<notin> set tl))"
proof -
  have 1: "watchdog settled_engine = Some 1" by (simp add: settled_engine_def)
  have 2: "watchdog shared_engine = Some 0" by (simp add: shared_engine_def)
  have a: "\<not> HasNewRegion example_watchdog 1" and b: "HasNewRegion example_watchdog 0"
    and c: "load_result example_watchdog 0 = Inr (Some 7)"
    by (simp_all add: example_watchdog_def load_result_def)
  from cheap_check_first [OF 1, of True example_watchdog] a
  have x: "new_events settled_engine (snd (facade_update_block True example_watchdog settled_engine)) =
     [Lock facade_update_mutex, Call_HasNewRegion False, Unlock facade_update_mutex]"
    by auto
  from cheap_check_first [OF 2, of True example_watchdog] b c
  have y: "\<exists>tl. new_events shared_engine (snd (facade_update_block True example_watchdog shared_engine)) =
         [Lock facade_update_mutex, Call_HasNewRegion True, Call_MaybeLoadNewRegion (Inr (Some 7))] @ tl
       \<and> (\<forall>p. Call_MaybeLoadNewRegion p \<notin> set tl)"
    by auto
  from x y show ?thesis by blast
qed

subsection \<open>Construction\<close>




subsection \<open>The exchange of the facade\<close>

text \<open>
  Claim C9 as stated says that the old generation is destroyed at the exchange. The
  assertion that the engine's pointer is its only owner is all that stands for it: in a
  build without assertions, when a second pointer owns the facade at address 3, the swap
  installs the facade at address 7, the facade at address 3 keeps one owner and nothing is
  destroyed.
\<close>

theorem exchange_keeps_shared_facade_alive:
  "fst (check_and_swap False example_watchdog contended_engine) = Inr ()
   \<and> query_data_facade (snd (check_and_swap False example_watchdog contended_engine)) = Some 7
   \<and> use_count (snd (check_and_swap False example_watchdog contended_engine)) 3 = 1
   \<and> trace (snd (check_and_swap False example_watchdog contended_engine)) =
       [Call_HasNewRegion True, Call_MaybeLoadNewRegion (Inr (Some 7)), Exchange (Some 3) 7]"
  by (simp add: check_and_swap_def example_watchdog_def contended_engine_def BOOST_ASSERT_def
      own_def emit_def move_assign_def use_count_of_def)

text \<open>
  Claim C9, amended. Let the watchdog report a new region and load the facade at \<open>a\<close>, so
  that the swap is about to replace the facade of the engine. At that point (line 127) the
  code asserts that the engine's pointer is the only owner of the current facade: in a build
  that checks assertions a violation aborts there, before the exchange, with the old facade
  still installed. Nothing else enforces the condition and nothing waits for it: without
  assertions the exchange takes place whatever the count is. The old facade is destroyed at
  the exchange exactly when the asserted condition holds: then the engine's pointer was its
  last owner, and the destruction is the event that follows the exchange; when the count is
  not one, the exchange destroys nothing.
\<close>

theorem swap_asserts_sole_owner:
  assumes "watchdog s = Some w" and "HasNewRegion wd w"
    and "MaybeLoadNewRegion wd w = Inr (Some a, w')"
  shows "(dbg \<and> use_count_of (loaded a w' s) (query_data_facade s) \<noteq> 1 \<longrightarrow>
            check_and_swap dbg wd s = (Inl Assertion_failed, loaded a w' s)
            \<and> query_data_facade (loaded a w' s) = query_data_facade s)
       \<and> (\<not> dbg \<or> use_count_of (loaded a w' s) (query_data_facade s) = 1 \<longrightarrow>
            check_and_swap dbg wd s = (Inr (), move_assign a (loaded a w' s))
            \<and> query_data_facade (move_assign a (loaded a w' s)) = Some a
            \<and> hd (new_events (loaded a w' s) (move_assign a (loaded a w' s)))
                = Exchange (query_data_facade s) a)
       \<and> (use_count_of (loaded a w' s) (query_data_facade s) = 1 \<longrightarrow>
            (\<exists>old. query_data_facade s = Some old
               \<and> new_events (loaded a w' s) (move_assign a (loaded a w' s))
                   = [Exchange (Some old) a, Destroy old]
               \<and> use_count (move_assign a (loaded a w' s)) old = 0))
       \<and> (use_count_of (loaded a w' s) (query_data_facade s) \<noteq> 1 \<longrightarrow>
            new_events (loaded a w' s) (move_assign a (loaded a w' s))
              = [Exchange (query_data_facade s) a])"
proof -
  have f: "query_data_facade (loaded a w' s) = query_data_facade s"
    by (simp add: loaded_def emit_def own_def)
  have 1: "dbg \<and> use_count_of (loaded a w' s) (query_data_facade s) \<noteq> 1 \<longrightarrow>
            check_and_swap dbg wd s = (Inl Assertion_failed, loaded a w' s)"
    using check_and_swap_loaded [OF assms, of dbg] by (auto simp add: BOOST_ASSERT_def)
  have 2: "\<not> dbg \<or> use_count_of (loaded a w' s) (query_data_facade s) = 1 \<longrightarrow>
            check_and_swap dbg wd s = (Inr (), move_assign a (loaded a w' s))"
    using check_and_swap_loaded [OF assms, of dbg] by (auto simp add: BOOST_ASSERT_def)
  have 3: "query_data_facade (move_assign a (loaded a w' s)) = Some a"
    by (simp add: move_assign_def emit_def split: option.splits)
  have 4: "hd (new_events (loaded a w' s) (move_assign a (loaded a w' s)))
                = Exchange (query_data_facade s) a"
    using f by (simp add: move_assign_def emit_def new_events_def split: option.splits)
  have 5: "use_count_of (loaded a w' s) (query_data_facade s) = 1 \<longrightarrow>
            (\<exists>old. query_data_facade s = Some old
               \<and> new_events (loaded a w' s) (move_assign a (loaded a w' s))
                   = [Exchange (Some old) a, Destroy old]
               \<and> use_count (move_assign a (loaded a w' s)) old = 0)"
    using f by (cases "query_data_facade s")
      (simp_all add: use_count_of_def move_assign_def emit_def new_events_def)
  have 6: "use_count_of (loaded a w' s) (query_data_facade s) \<noteq> 1 \<longrightarrow>
            new_events (loaded a w' s) (move_assign a (loaded a w' s))
              = [Exchange (query_data_facade s) a]"
    using f by (cases "query_data_facade s")
      (simp_all add: use_count_of_def move_assign_def emit_def new_events_def)
  from 1 2 3 4 5 6 f show ?thesis by blast
qed

text \<open>The instances: when the engine is the only owner of the facade at address 3, the swap
  installs the facade at address 7 and destroys the one at address 3; when a second pointer
  owns it, a build that checks assertions aborts before the exchange.\<close>

theorem swap_asserts_sole_owner_witness:
  "check_and_swap True example_watchdog shared_engine =
     (Inr (), move_assign 7 (loaded 7 1 shared_engine))
   \<and> query_data_facade (move_assign 7 (loaded 7 1 shared_engine)) = Some 7
   \<and> new_events (loaded 7 1 shared_engine) (move_assign 7 (loaded 7 1 shared_engine))
       = [Exchange (Some 3) 7, Destroy 3]
   \<and> use_count (move_assign 7 (loaded 7 1 shared_engine)) 3 = 0
   \<and> check_and_swap True example_watchdog contended_engine =
       (Inl Assertion_failed, loaded 7 1 contended_engine)
   \<and> query_data_facade (loaded 7 1 contended_engine) = Some 3
   \<and> new_events (loaded 7 1 contended_engine) (move_assign 7 (loaded 7 1 contended_engine))
       = [Exchange (Some 3) 7]"
proof -
  have 1: "watchdog shared_engine = Some 0" "watchdog contended_engine = Some 0"
    by (simp_all add: shared_engine_def contended_engine_def)
  have 2: "HasNewRegion example_watchdog 0" by (simp add: example_watchdog_def)
  have 3: "MaybeLoadNewRegion example_watchdog 0 = Inr (Some 7, 1)"
    by (simp add: example_watchdog_def)
  have 4: "use_count_of (loaded 7 1 shared_engine) (query_data_facade shared_engine) = 1"
    by (simp add: loaded_def shared_engine_def use_count_of_def own_def emit_def)
  have 5: "query_data_facade shared_engine = Some 3" "query_data_facade contended_engine = Some 3"
    by (simp_all add: shared_engine_def contended_engine_def)
  have 6: "use_count_of (loaded 7 1 contended_engine) (query_data_facade contended_engine) \<noteq> 1"
    by (simp add: loaded_def contended_engine_def use_count_of_def own_def emit_def)
  from swap_asserts_sole_owner [OF 1(1) 2 3, of True]
    swap_asserts_sole_owner [OF 1(2) 2 3, of True] 4 5 6
  show ?thesis by auto
qed

text \<open>Outside the asserted condition: when the current facade has other owners and
  assertions are compiled out, the exchange only takes the engine's reference away and
  destroys nothing.\<close>

lemma exchange_with_other_owners:
  assumes "watchdog s = Some w" and "HasNewRegion wd w"
    and "MaybeLoadNewRegion wd w = Inr (Some a, w')"
    and "query_data_facade s = Some old" and "1 < use_count (loaded a w' s) old"
  shows "check_and_swap False wd s = (Inr (), move_assign a (loaded a w' s))
       \<and> use_count (move_assign a (loaded a w' s)) old = use_count (loaded a w' s) old - 1
       \<and> new_events (loaded a w' s) (move_assign a (loaded a w' s)) = [Exchange (Some old) a]"
proof -
  have f: "query_data_facade (loaded a w' s) = Some old"
    using assms(4) by (simp add: loaded_def emit_def own_def)
  from check_and_swap_loaded [OF assms(1,2,3), of False]
  have "check_and_swap False wd s = (Inr (), move_assign a (loaded a w' s))"
    by (simp add: BOOST_ASSERT_def)
  with f assms(5) show ?thesis
    by (simp add: move_assign_def emit_def new_events_def)
qed

section \<open>Properties of the interleaved execution\<close>

subsection \<open>Mutual exclusion\<close>

text \<open>A thread that stands where the source holds a mutex is the owner of that mutex, so
  two threads never stand at such positions together.\<close>

lemma one_query_owner:
  "mutual_exclusion s \<Longrightarrow> holds_query (pcs s t) \<Longrightarrow> holds_query (pcs s t') \<Longrightarrow> t = t'"
  unfolding mutual_exclusion_def by (metis option.inject owner.inject)

lemma one_pending_owner:
  "mutual_exclusion s \<Longrightarrow> holds_pending (pcs s t) \<Longrightarrow> holds_pending (pcs s t') \<Longrightarrow> t = t'"
  unfolding mutual_exclusion_def by (metis option.inject owner.inject)

lemma mutual_exclusion_step:
  assumes "mutual_exclusion s"
  shows "mutual_exclusion (step dbg t s)"
proof (cases "pcs s t")
  case Inc_unlock_pending
  with assms one_pending_owner [OF assms, of t] show ?thesis
    by (auto simp: step_def mutual_exclusion_def goto_def release_def)
next
  case Inc_return
  with assms one_query_owner [OF assms, of t] show ?thesis
    by (auto simp: step_def mutual_exclusion_def goto_def release_def)
next
  case Dec_return
  with assms one_query_owner [OF assms, of t] show ?thesis
    by (auto simp: step_def mutual_exclusion_def goto_def release_def)
qed (use assms in \<open>auto simp: step_def mutual_exclusion_def goto_def acquire_def store_def\<close>)

lemma mutual_exclusion_exec:
  assumes "mutual_exclusion s"
  shows "mutual_exclusion (exec dbg a s)"
proof (cases a)
  case (Step t)
  with assms show ?thesis by (simp add: exec_def mutual_exclusion_step)
next
  case (Call_Increase t)
  with assms show ?thesis by (auto simp: exec_def mutual_exclusion_def goto_def)
next
  case (Call_Decrease t)
  with assms show ?thesis by (auto simp: exec_def mutual_exclusion_def goto_def)
next
  case Updater_lock
  with assms show ?thesis by (auto simp: exec_def mutual_exclusion_def acquire_def)
next
  case Updater_unlock
  with assms show ?thesis by (auto simp: exec_def mutual_exclusion_def release_def)
qed


lemma mutual_exclusion_initial: "mutual_exclusion initial"
  by (simp add: mutual_exclusion_def initial_def)

lemma mutual_exclusion_run:
  "mutual_exclusion s \<Longrightarrow> mutual_exclusion (run dbg as s)"
  by (induction as arbitrary: s) (simp_all add: mutual_exclusion_exec)

subsection \<open>The value written is one more, or one less, than the count\<close>

lemmas sys_simps = goto_def acquire_def release_def store_def

lemma registers_step:
  assumes me: "mutual_exclusion s" and rg: "registers s"
  shows "registers (step dbg t s)"
proof -
  note uq = one_query_owner [OF me, of t]
  have others: "holds_query (pcs s t) \<Longrightarrow> x \<noteq> t \<Longrightarrow> pcs s x \<noteq> Inc_store v \<and> pcs s x \<noteq> Dec_store v" for x v
    using uq [of x] by auto
  show ?thesis
  proof (cases "pcs s t")
    case (Inc_store v)
    with rg others show ?thesis by (auto simp: step_def registers_def sys_simps)
  next
    case (Dec_store v)
    with rg others show ?thesis by (auto simp: step_def registers_def sys_simps)
  qed (use rg in \<open>auto simp: step_def registers_def sys_simps\<close>)
qed

lemma registers_exec:
  assumes "mutual_exclusion s" and "registers s"
  shows "registers (exec dbg a s)"
proof (cases a)
  case (Step t)
  with assms show ?thesis by (simp add: exec_def registers_step)
qed (use assms in \<open>auto simp: exec_def registers_def sys_simps\<close>)


subsection \<open>Counting threads by position\<close>

text \<open>Moving one thread changes the number of threads at a set of positions by what the
  thread leaves and what it enters.\<close>

lemma card_fun_upd:
  assumes "finite {x. P (f x)}"
  shows "int (card {x. P ((f(t := p)) x)}) =
           int (card {x. P (f x)}) + (if P p then 1 else 0) - (if P (f t) then 1 else 0)"
proof -
  define A where "A = {x. P (f x)}"
  define B where "B = {x. x \<noteq> t \<and> P (f x)}"
  have finA: "finite A" using assms by (simp add: A_def)
  have finB: "finite B" by (rule finite_subset [OF _ finA]) (auto simp: A_def B_def)
  have tB: "t \<notin> B" by (simp add: B_def)
  have c: "int (card A) = int (card B) + (if P (f t) then 1 else 0)"
  proof (cases "P (f t)")
    case True
    then have "A = insert t B" by (auto simp: A_def B_def)
    with finB tB True show ?thesis by simp
  next
    case False
    then have "A = B" by (auto simp: A_def B_def)
    with False show ?thesis by simp
  qed
  have d: "int (card {x. P ((f(t := p)) x)}) = int (card B) + (if P p then 1 else 0)"
  proof (cases "P p")
    case True
    then have "{x. P ((f(t := p)) x)} = insert t B" by (auto simp: B_def)
    with finB tB True show ?thesis by simp
  next
    case False
    then have "{x. P ((f(t := p)) x)} = B" by (auto simp: B_def)
    with False show ?thesis by simp
  qed
  from c d show ?thesis by (simp add: A_def)
qed

lemma threads_at_nonneg: "0 \<le> threads_at P s"
  by (simp add: threads_at_def)

lemma threads_at_goto:
  assumes "finitely_busy s" and "\<not> P Idle"
  shows "threads_at P (goto t p s) =
           threads_at P s + (if P p then 1 else 0) - (if P (pcs s t) then 1 else 0)"
proof -
  have "{t. P (pcs s t)} \<subseteq> {t. pcs s t \<noteq> Idle}" using assms(2) by auto
  with assms(1) have fin: "finite {t. P (pcs s t)}"
    unfolding finitely_busy_def by (rule rev_finite_subset)
  have g: "pcs (goto t p s) = (pcs s)(t := p)" by (simp add: goto_def)
  show ?thesis
    unfolding threads_at_def g using fin by (rule card_fun_upd)
qed

lemma finitely_busy_goto:
  assumes "finitely_busy s"
  shows "finitely_busy (goto t p s)"
proof -
  have "{x. ((pcs s)(t := p)) x \<noteq> Idle} \<subseteq> insert t {t. pcs s t \<noteq> Idle}" by auto
  moreover have "finite (insert t {t. pcs s t \<noteq> Idle})"
    using assms by (simp add: finitely_busy_def)
  ultimately have "finite {x. ((pcs s)(t := p)) x \<noteq> Idle}" by (rule finite_subset)
  then show ?thesis by (simp add: finitely_busy_def goto_def)
qed

lemma none_aborted_goto:
  assumes "none_aborted s" and "p \<noteq> Aborted"
  shows "none_aborted (goto t p s)"
  using assms by (simp add: none_aborted_def goto_def)

lemma goto_fields:
  "shared (goto t p s) = shared s" "held (goto t p s) = held s"
  "admits_begun (goto t p s) = admits_begun s" "increments (goto t p s) = increments s"
  "admits_done (goto t p s) = admits_done s" "releases_begun (goto t p s) = releases_begun s"
  "decrements (goto t p s) = decrements s" "releases_done (goto t p s) = releases_done s"
  by (simp_all add: goto_def)

lemma frame:
  "threads_at P (s\<lparr>notifications := xn\<rparr>) = threads_at P s"
  "threads_at P (s\<lparr>admits_begun := xa\<rparr>) = threads_at P s"
  "threads_at P (s\<lparr>increments := xi\<rparr>) = threads_at P s"
  "threads_at P (s\<lparr>admits_done := xa\<rparr>) = threads_at P s"
  "threads_at P (s\<lparr>releases_begun := xr\<rparr>) = threads_at P s"
  "threads_at P (s\<lparr>decrements := xd\<rparr>) = threads_at P s"
  "threads_at P (s\<lparr>releases_done := xr\<rparr>) = threads_at P s"
  "threads_at P (s\<lparr>held := xh\<rparr>) = threads_at P s"
  "threads_at P (s\<lparr>shared := xs\<rparr>) = threads_at P s"
  "finitely_busy (s\<lparr>notifications := xn\<rparr>) = finitely_busy s"
  "finitely_busy (s\<lparr>admits_begun := xa\<rparr>) = finitely_busy s"
  "finitely_busy (s\<lparr>increments := xi\<rparr>) = finitely_busy s"
  "finitely_busy (s\<lparr>admits_done := xa\<rparr>) = finitely_busy s"
  "finitely_busy (s\<lparr>releases_begun := xr\<rparr>) = finitely_busy s"
  "finitely_busy (s\<lparr>decrements := xd\<rparr>) = finitely_busy s"
  "finitely_busy (s\<lparr>releases_done := xr\<rparr>) = finitely_busy s"
  "finitely_busy (s\<lparr>held := xh\<rparr>) = finitely_busy s"
  "finitely_busy (s\<lparr>shared := xs\<rparr>) = finitely_busy s"
  "none_aborted (s\<lparr>notifications := xn\<rparr>) = none_aborted s"
  "none_aborted (s\<lparr>admits_begun := xa\<rparr>) = none_aborted s"
  "none_aborted (s\<lparr>increments := xi\<rparr>) = none_aborted s"
  "none_aborted (s\<lparr>admits_done := xa\<rparr>) = none_aborted s"
  "none_aborted (s\<lparr>releases_begun := xr\<rparr>) = none_aborted s"
  "none_aborted (s\<lparr>decrements := xd\<rparr>) = none_aborted s"
  "none_aborted (s\<lparr>releases_done := xr\<rparr>) = none_aborted s"
  "none_aborted (s\<lparr>held := xh\<rparr>) = none_aborted s"
  "none_aborted (s\<lparr>shared := xs\<rparr>) = none_aborted s"
  by (simp_all add: threads_at_def finitely_busy_def none_aborted_def)


lemmas accounting_simps =
  accounting_def threads_at_goto finitely_busy_goto none_aborted_goto goto_fields frame
  acquire_def release_def store_def

subsection \<open>The history variables account for the count\<close>

lemma accounting_step:
  assumes rg: "registers s" and acc: "accounting s"
  shows "accounting (step dbg t s)"
proof (cases "pcs s t")
  case Idle
  with acc show ?thesis by (simp add: step_def)
next
  case Aborted
  with acc show ?thesis by (simp add: step_def)
next
  case Inc_lock_pending
  with acc show ?thesis by (simp add: step_def accounting_simps)
next
  case Inc_lock_query
  with acc show ?thesis by (simp add: step_def accounting_simps)
next
  case Inc_unlock_pending
  with acc show ?thesis by (simp add: step_def accounting_simps)
next
  case Inc_load
  with acc show ?thesis by (simp add: step_def accounting_simps)
next
  case (Inc_store v)
  with rg have "v = number_of_queries (shared s) + 1" by (simp add: registers_def)
  with Inc_store acc show ?thesis by (simp add: step_def accounting_simps)
next
  case Inc_return
  with acc show ?thesis by (simp add: step_def accounting_simps)
next
  case Dec_lock_query
  with acc show ?thesis by (simp add: step_def accounting_simps)
next
  case Dec_load
  with acc show ?thesis by (simp add: step_def accounting_simps)
next
  case (Dec_store v)
  with rg have "v = number_of_queries (shared s) - 1" by (simp add: registers_def)
  with Dec_store acc show ?thesis by (simp add: step_def accounting_simps)
next
  case Dec_assert
  from acc threads_at_nonneg [of returning s] threads_at_nonneg [of before_decrement s]
  have "0 \<le> number_of_queries (shared s)" by (simp add: accounting_def)
  with Dec_assert acc show ?thesis by (simp add: step_def accounting_simps BOOST_ASSERT_def)
next
  case Dec_notify
  with acc show ?thesis by (simp add: step_def accounting_simps)
next
  case Dec_return
  with acc show ?thesis by (simp add: step_def accounting_simps)
qed

lemma accounting_exec:
  assumes "registers s" and "accounting s" and "release_matched a s"
  shows "accounting (exec dbg a s)"
proof (cases a)
  case (Step t)
  with assms show ?thesis by (simp add: exec_def accounting_step)
next
  case (Call_Increase t)
  with assms show ?thesis by (simp add: exec_def accounting_simps)
next
  case (Call_Decrease t)
  with assms show ?thesis
    by (cases "pcs s t = Idle") (simp_all add: exec_def accounting_simps release_matched_def)
next
  case Updater_lock
  with assms show ?thesis by (simp add: exec_def accounting_simps)
next
  case Updater_unlock
  with assms show ?thesis by (simp add: exec_def accounting_simps)
qed

lemma invariant_initial: "invariant initial"
  by (simp add: invariant_def mutual_exclusion_def registers_def accounting_def initial_def
      finitely_busy_def none_aborted_def threads_at_def)

lemma invariant_exec:
  assumes "invariant s" and "release_matched a s"
  shows "invariant (exec dbg a s)"
  using assms
  by (simp add: invariant_def mutual_exclusion_exec registers_exec accounting_exec)

lemma invariant_run:
  assumes "invariant s" and "matched dbg as s"
  shows "invariant (run dbg as s)"
  using assms
proof (induction as arbitrary: s)
  case Nil
  then show ?case by simp
next
  case (Cons a as)
  then show ?case by (simp add: invariant_exec)
qed

lemma matched_take: "matched dbg as s \<Longrightarrow> matched dbg (take n as) s"
proof (induction as arbitrary: s n)
  case Nil
  then show ?case by simp
next
  case (Cons a as)
  then show ?case by (cases n) simp_all
qed

lemma invariant_count:
  assumes "invariant s"
  shows "0 \<le> number_of_queries (shared s)"
    and "releases_done s = admits_begun s \<Longrightarrow> number_of_queries (shared s) = 0"
    and "none_aborted s"
proof -
  from assms have acc: "accounting s" by (simp add: invariant_def)
  note nn = threads_at_nonneg [of returning s] threads_at_nonneg [of before_decrement s]
    threads_at_nonneg [of before_increment s] threads_at_nonneg [of after_decrement s]
  from acc nn show "0 \<le> number_of_queries (shared s)" by (simp add: accounting_def)
  from acc nn show "releases_done s = admits_begun s \<Longrightarrow> number_of_queries (shared s) = 0"
    by (simp add: accounting_def)
  from acc show "none_aborted s" by (simp add: accounting_def)
qed

subsection \<open>The count under any interleaving\<close>

text \<open>
  Claim C2. Start with a count of zero and let any number of threads call
  \<open>IncreaseQueryCount\<close> and \<open>DecreaseQueryCount\<close>, their statements interleaved in any
  order, the updater taking and giving back \<open>pending_update_mutex\<close> in between. If every
  call of \<open>DecreaseQueryCount\<close> is matched by a call of \<open>IncreaseQueryCount\<close> that returned
  before it began, then the count is never negative, at no point of the schedule, and once
  as many calls of \<open>DecreaseQueryCount\<close> have returned as calls of \<open>IncreaseQueryCount\<close>
  were made, the count is zero. The assertion of line 56 never fails on the way.
\<close>

theorem count_never_negative:
  assumes "matched dbg sched initial"
  shows "(\<forall>n. 0 \<le> number_of_queries (shared (run dbg (take n sched) initial)))
       \<and> (releases_done (run dbg sched initial) = admits_begun (run dbg sched initial)
            \<longrightarrow> number_of_queries (shared (run dbg sched initial)) = 0)
       \<and> (\<forall>t. pcs (run dbg sched initial) t \<noteq> Aborted)"
proof -
  have inv: "invariant (run dbg (take n sched) initial)" for n
    using invariant_initial matched_take [OF assms] by (rule invariant_run)
  from inv [of "length sched"] have "invariant (run dbg sched initial)" by simp
  with inv show ?thesis by (simp add: invariant_count none_aborted_def [symmetric])
qed

text \<open>The instance: the schedule of two queries is matched, both calls of
  \<open>DecreaseQueryCount\<close> return, and the count ends at zero.\<close>

theorem count_never_negative_witness:
  "matched True two_queries initial
   \<and> (\<forall>n. 0 \<le> number_of_queries (shared (run True (take n two_queries) initial)))
   \<and> releases_done (run True two_queries initial) = 2
   \<and> admits_begun (run True two_queries initial) = 2
   \<and> number_of_queries (shared (run True two_queries initial)) = 0"
proof -
  have m: "matched True two_queries initial" by code_simp
  have r: "releases_done (run True two_queries initial) = 2" by code_simp
  have a: "admits_begun (run True two_queries initial) = 2" by code_simp
  from count_never_negative [OF m] m r a show ?thesis by simp
qed

subsection \<open>The two layers agree\<close>

text \<open>A thread that runs a call alone, with the mutexes free, leaves the barriers as the
  sequential definitions say.\<close>

lemma IncreaseQueryCount_steps:
  assumes "pcs s t = Idle" and "held s pending_update_mutex = None" and "held s query_mutex = None"
  shows "shared (run dbg [Call_Increase t, Step t, Step t, Step t, Step t, Step t, Step t] s)
           = barrier (fst (IncreaseQueryCount \<lparr>barrier = shared s\<rparr>))"
  using assms
  by (simp add: exec_def step_def goto_def acquire_def release_def store_def IncreaseQueryCount_def)

lemma DecreaseQueryCount_steps:
  assumes "pcs s t = Idle" and "held s query_mutex = None"
  shows "shared (run dbg [Call_Decrease t, Step t, Step t, Step t] s)
           = barrier (fst (snd (DecreaseQueryCount dbg \<lparr>barrier = shared s\<rparr>)))"
  using assms
  by (simp add: exec_def step_def goto_def acquire_def release_def store_def DecreaseQueryCount_def
      Let_def)

text \<open>In the interleaved execution the only statement that notifies is the test of lines
  59-62, and it notifies exactly when it finds the count at zero.\<close>

lemma notifications_step:
  "notifications (step dbg t s) =
     notifications s + (if pcs s t = Dec_notify \<and> number_of_queries (shared s) = 0 then 1 else 0)"
  by (cases "pcs s t") (simp_all add: step_def goto_def acquire_def release_def store_def)

subsection \<open>Admission and the pending-update mutex\<close>

lemmas run_simps = exec_def step_def initial_def goto_def acquire_def release_def store_def

lemma run_append: "run dbg (as @ bs) s = run dbg bs (run dbg as s)"
  by (induction as arbitrary: s) simp_all

text \<open>The order of the statements of \<open>IncreaseQueryCount\<close>, read off the mutexes and the
  count after each of them.\<close>

lemma admit_order:
  assumes "pcs s t = Idle" and "held s pending_update_mutex = None" and "held s query_mutex = None"
  shows "held (run dbg [Call_Increase t, Step t] s) pending_update_mutex = Some (Query t)
       \<and> held (run dbg [Call_Increase t, Step t] s) query_mutex = None
       \<and> held (run dbg [Call_Increase t, Step t, Step t] s) pending_update_mutex = Some (Query t)
       \<and> held (run dbg [Call_Increase t, Step t, Step t] s) query_mutex = Some (Query t)
       \<and> held (run dbg [Call_Increase t, Step t, Step t, Step t] s) pending_update_mutex = None
       \<and> held (run dbg [Call_Increase t, Step t, Step t, Step t] s) query_mutex = Some (Query t)
       \<and> number_of_queries (shared (run dbg [Call_Increase t, Step t, Step t, Step t] s))
           = number_of_queries (shared s)
       \<and> number_of_queries
           (shared (run dbg [Call_Increase t, Step t, Step t, Step t, Step t, Step t] s))
           = number_of_queries (shared s) + 1
       \<and> held (run dbg [Call_Increase t, Step t, Step t, Step t, Step t, Step t] s) query_mutex
           = Some (Query t)
       \<and> held (run dbg [Call_Increase t, Step t, Step t, Step t, Step t, Step t, Step t] s)
           query_mutex = None
       \<and> pcs (run dbg [Call_Increase t, Step t, Step t, Step t, Step t, Step t, Step t] s) t = Idle"
  using assms by (simp add: exec_def step_def goto_def acquire_def release_def store_def)

text \<open>While the updater holds \<open>pending_update_mutex\<close>, a thread that is not past line 69
  stays there, and if no thread is past it, no increment is written.\<close>

lemma gate_exec:
  assumes me: "mutual_exclusion s" and up: "held s pending_update_mutex = Some Updater"
    and a: "a \<noteq> Updater_unlock" and t: "\<not> past_gate (pcs s t)"
  shows "held (exec dbg a s) pending_update_mutex = Some Updater
       \<and> \<not> past_gate (pcs (exec dbg a s) t)"
proof -
  have np: "\<not> holds_pending (pcs s x)" for x
    using me up by (auto simp: mutual_exclusion_def)
  show ?thesis
  proof (cases a)
    case (Step x)
    show ?thesis
    proof (cases "pcs s x")
      case Inc_lock_query
      with np [of x] show ?thesis by simp
    next
      case Inc_unlock_pending
      with np [of x] show ?thesis by simp
    qed (use Step up t in \<open>auto simp: run_simps\<close>)
  qed (use up a t in \<open>auto simp: run_simps\<close>)
qed

lemma gate_run:
  assumes "mutual_exclusion s" and "held s pending_update_mutex = Some Updater"
    and "Updater_unlock \<notin> set as" and "\<not> past_gate (pcs s t)"
  shows "held (run dbg as s) pending_update_mutex = Some Updater
       \<and> \<not> past_gate (pcs (run dbg as s) t)"
  using assms
proof (induction as arbitrary: s)
  case Nil
  then show ?case by simp
next
  case (Cons a as)
  from Cons.prems have a: "a \<noteq> Updater_unlock" and as: "Updater_unlock \<notin> set as" by auto
  from gate_exec [OF Cons.prems(1,2) a Cons.prems(4), where dbg = dbg]
  have h: "held (exec dbg a s) pending_update_mutex = Some Updater"
    and p: "\<not> past_gate (pcs (exec dbg a s) t)" by simp_all
  from Cons.IH [OF mutual_exclusion_exec [OF Cons.prems(1)] h as p]
  show ?case by simp
qed

lemma drained_exec:
  assumes none: "\<forall>t. \<not> past_gate (pcs s t)"
  shows "increments (exec dbg a s) = increments s"
proof (cases a)
  case (Step x)
  show ?thesis
  proof (cases "pcs s x")
    case (Inc_store v)
    with none [rule_format, of x] show ?thesis by simp
  qed (use Step in \<open>auto simp: run_simps\<close>)
qed (auto simp: run_simps)

lemma drained_run:
  assumes "mutual_exclusion s" and "held s pending_update_mutex = Some Updater"
    and "Updater_unlock \<notin> set as" and "\<forall>t. \<not> past_gate (pcs s t)"
  shows "increments (run dbg as s) = increments s"
  using assms
proof (induction as arbitrary: s)
  case Nil
  then show ?case by simp
next
  case (Cons a as)
  from Cons.prems have a: "a \<noteq> Updater_unlock" and as: "Updater_unlock \<notin> set as" by auto
  have h: "held (exec dbg a s) pending_update_mutex = Some Updater"
    and p: "\<forall>t. \<not> past_gate (pcs (exec dbg a s) t)"
    using gate_exec [OF Cons.prems(1,2) a, where dbg = dbg] Cons.prems(4) by blast+
  from Cons.IH [OF mutual_exclusion_exec [OF Cons.prems(1)] h as p]
    drained_exec [OF Cons.prems(4), where dbg = dbg and a = a]
  show ?case by simp
qed

text \<open>A statement of \<open>DecreaseQueryCount\<close> neither reads nor writes
  \<open>pending_update_mutex\<close>.\<close>

lemma release_ignores_pending:
  assumes "in_release (pcs s t)"
  shows "step dbg t (s\<lparr>held := (held s)(pending_update_mutex := x)\<rparr>)
           = (step dbg t s)\<lparr>held := (held (step dbg t s))(pending_update_mutex := x)\<rparr>"
  using assms
  by (cases "pcs s t") (auto simp: step_def goto_def acquire_def release_def store_def fun_upd_twist)

text \<open>
  Claim C10, as stated: no query is admitted while an updater holds
  \<open>pending_update_mutex\<close>. \<open>IncreaseQueryCount\<close> gives the mutex back at line 77, before it
  increments at line 80. A thread that stands between these lines when the updater takes
  the mutex goes on: after the schedule \<open>overtaken\<close> the updater holds the mutex and the
  count is 0; two steps of the thread later (the read and the write of line 80) the updater
  still holds the mutex and the count is 1, and with the third step the call has returned.
\<close>

theorem admitted_while_updater_holds:
  "held (run True overtaken initial) pending_update_mutex = Some Updater
   \<and> number_of_queries (shared (run True overtaken initial)) = 0
   \<and> held (run True (overtaken @ [Step 0, Step 0]) initial) pending_update_mutex = Some Updater
   \<and> number_of_queries (shared (run True (overtaken @ [Step 0, Step 0]) initial)) = 1
   \<and> held (run True (overtaken @ [Step 0, Step 0, Step 0]) initial) pending_update_mutex
       = Some Updater
   \<and> admits_done (run True (overtaken @ [Step 0, Step 0, Step 0]) initial) = 1"
  by (simp add: overtaken_def run_simps)

text \<open>
  Claim C10, amended. \<open>IncreaseQueryCount\<close> acquires \<open>pending_update_mutex\<close> before
  \<open>query_mutex\<close> and gives it back before it increments the count. Consequently, for as
  long as an updater holds \<open>pending_update_mutex\<close>, no thread gets past the acquisition at
  line 69: a query that begins its admission during that time is not admitted, and if no
  thread stood between lines 69 and 81 when the updater took the mutex, no increment is
  written at all. A thread that was past line 69 already may still be admitted. Queries
  that are admitted are unaffected: the statements of \<open>DecreaseQueryCount\<close> do the same
  whatever the state of \<open>pending_update_mutex\<close>.
\<close>

theorem admission_gate:
  "(\<forall>s t. pcs s t = Idle \<and> held s pending_update_mutex = None \<and> held s query_mutex = None \<longrightarrow>
       held (run dbg [Call_Increase t, Step t] s) pending_update_mutex = Some (Query t)
     \<and> held (run dbg [Call_Increase t, Step t] s) query_mutex = None
     \<and> held (run dbg [Call_Increase t, Step t, Step t] s) query_mutex = Some (Query t)
     \<and> held (run dbg [Call_Increase t, Step t, Step t, Step t] s) pending_update_mutex = None
     \<and> number_of_queries (shared (run dbg [Call_Increase t, Step t, Step t, Step t] s))
         = number_of_queries (shared s)
     \<and> number_of_queries
         (shared (run dbg [Call_Increase t, Step t, Step t, Step t, Step t, Step t] s))
         = number_of_queries (shared s) + 1)
 \<and> (\<forall>pre as t.
       held (run dbg pre initial) pending_update_mutex = Some Updater
       \<and> Updater_unlock \<notin> set as \<and> \<not> past_gate (pcs (run dbg pre initial) t) \<longrightarrow>
         held (run dbg (pre @ as) initial) pending_update_mutex = Some Updater
       \<and> \<not> past_gate (pcs (run dbg (pre @ as) initial) t))
 \<and> (\<forall>pre as.
       held (run dbg pre initial) pending_update_mutex = Some Updater
       \<and> Updater_unlock \<notin> set as \<and> (\<forall>t. \<not> past_gate (pcs (run dbg pre initial) t)) \<longrightarrow>
         increments (run dbg (pre @ as) initial) = increments (run dbg pre initial))
 \<and> (\<forall>s t x. in_release (pcs s t) \<longrightarrow>
       step dbg t (s\<lparr>held := (held s)(pending_update_mutex := x)\<rparr>)
         = (step dbg t s)\<lparr>held := (held (step dbg t s))(pending_update_mutex := x)\<rparr>)"
proof -
  have me: "mutual_exclusion (run dbg pre initial)" for pre
    using mutual_exclusion_initial by (rule mutual_exclusion_run)
  have 1: "pcs s t = Idle \<and> held s pending_update_mutex = None \<and> held s query_mutex = None \<longrightarrow>
       held (run dbg [Call_Increase t, Step t] s) pending_update_mutex = Some (Query t)
     \<and> held (run dbg [Call_Increase t, Step t] s) query_mutex = None
     \<and> held (run dbg [Call_Increase t, Step t, Step t] s) query_mutex = Some (Query t)
     \<and> held (run dbg [Call_Increase t, Step t, Step t, Step t] s) pending_update_mutex = None
     \<and> number_of_queries (shared (run dbg [Call_Increase t, Step t, Step t, Step t] s))
         = number_of_queries (shared s)
     \<and> number_of_queries
         (shared (run dbg [Call_Increase t, Step t, Step t, Step t, Step t, Step t] s))
         = number_of_queries (shared s) + 1" for s t
    using admit_order [where s = s and t = t and dbg = dbg] by blast
  have 2: "held (run dbg pre initial) pending_update_mutex = Some Updater
       \<and> Updater_unlock \<notin> set as \<and> \<not> past_gate (pcs (run dbg pre initial) t) \<longrightarrow>
         held (run dbg (pre @ as) initial) pending_update_mutex = Some Updater
       \<and> \<not> past_gate (pcs (run dbg (pre @ as) initial) t)" for pre as t
    using gate_run [OF me [of pre], where as = as and t = t and dbg = dbg]
    by (simp add: run_append)
  have 3: "held (run dbg pre initial) pending_update_mutex = Some Updater
       \<and> Updater_unlock \<notin> set as \<and> (\<forall>t. \<not> past_gate (pcs (run dbg pre initial) t)) \<longrightarrow>
         increments (run dbg (pre @ as) initial) = increments (run dbg pre initial)" for pre as
    using drained_run [OF me [of pre], where as = as and dbg = dbg]
    by (simp add: run_append)
  have 4: "in_release (pcs s t) \<longrightarrow>
       step dbg t (s\<lparr>held := (held s)(pending_update_mutex := x)\<rparr>)
         = (step dbg t s)\<lparr>held := (held (step dbg t s))(pending_update_mutex := x)\<rparr>" for s t x
    using release_ignores_pending [where s = s and t = t and dbg = dbg and x = x] by blast
  from 1 2 3 4 show ?thesis by blast
qed

text \<open>The instance: the updater takes the mutex first; thread 0 then begins its admission
  and does not get past line 69, and the count stays at zero. Thread 1, which is inside
  \<open>DecreaseQueryCount\<close>, makes the same step with the mutex taken as with the mutex free.\<close>

theorem admission_gate_witness:
  "pcs (run True [Updater_lock, Call_Increase 0, Step 0, Step 0] initial) 0 = Inc_lock_pending
   \<and> held (run True [Updater_lock, Call_Increase 0, Step 0, Step 0] initial) pending_update_mutex
       = Some Updater
   \<and> increments (run True [Updater_lock, Call_Increase 0, Step 0, Step 0] initial) = 0
   \<and> step True 1 (run True [Call_Decrease 1, Updater_lock] initial)
       = (step True 1 (run True [Call_Decrease 1] initial))
           \<lparr>held := (held (step True 1 (run True [Call_Decrease 1] initial)))
              (pending_update_mutex := Some Updater)\<rparr>"
proof -
  have h: "held (run True [Updater_lock] initial) pending_update_mutex = Some Updater"
    and u: "Updater_unlock \<notin> set [Call_Increase 0, Step 0, Step 0]"
    and p: "\<forall>t. \<not> past_gate (pcs (run True [Updater_lock] initial) t)"
    and r: "in_release (pcs (run True [Call_Decrease 1] initial) 1)"
    by (simp_all add: run_simps)
  have i: "increments (run True [Updater_lock] initial) = 0" by (simp add: run_simps)
  have e: "run True [Call_Decrease 1, Updater_lock] initial
             = (run True [Call_Decrease 1] initial)
                 \<lparr>held := (held (run True [Call_Decrease 1] initial))
                    (pending_update_mutex := Some Updater)\<rparr>"
    by (simp add: run_simps)
  have q: "pcs (run True [Updater_lock, Call_Increase 0, Step 0, Step 0] initial) 0
             = Inc_lock_pending"
    by (simp add: run_simps)
  from admission_gate [of True] h u p r
  have "held (run True ([Updater_lock] @ [Call_Increase 0, Step 0, Step 0]) initial)
          pending_update_mutex = Some Updater"
    and "increments (run True ([Updater_lock] @ [Call_Increase 0, Step 0, Step 0]) initial)
          = increments (run True [Updater_lock] initial)"
    and "step True 1 ((run True [Call_Decrease 1] initial)
           \<lparr>held := (held (run True [Call_Decrease 1] initial))
              (pending_update_mutex := Some Updater)\<rparr>)
         = (step True 1 (run True [Call_Decrease 1] initial))
           \<lparr>held := (held (step True 1 (run True [Call_Decrease 1] initial)))
              (pending_update_mutex := Some Updater)\<rparr>"
    by blast+
  with i e q show ?thesis by simp
qed

end
